theory Spec2Isabelle
  imports Complex_Main
begin

section \<open>Recurring versus new customer: a shallow embedding\<close>

text \<open>
  The development follows the Python sources \<^verbatim>\<open>utils.py\<close>, \<^verbatim>\<open>services.py\<close>,
  \<^verbatim>\<open>models.py\<close> and \<^verbatim>\<open>api.py\<close>. Conventions:
  \<^item> A Python \<^verbatim>\<open>float\<close> is modelled by the real number it denotes, and the float
    arithmetic of \<^verbatim>\<open>detect_faces_and_crop\<close> by exact arithmetic followed by the rounding
    to the nearest double. Python integers are \<^typ>\<open>int\<close>.
  \<^item> The similarity that the search returns is a \<^verbatim>\<open>float32\<close> widened to a double. No
    such value lies between the double nearest to 0.7 and 0.7 itself, so the comparison
    with \<^verbatim>\<open>THRESHOLD\<close> is the comparison with the real number 0.7.
  \<^item> An exception is a value \<open>Inl e\<close> of the sum type \<open>error + 'a\<close>.
  \<^item> The external collaborators (the face detector, the image decoder, the embedding
    generator, the nearest-neighbour search of the loaded FAISS index) are parameters of
    the functions that call them, and are taken to return.
  \<^item> Mutable objects (the service's index, the file system) are passed in and returned.
  \<^item> Temporary files and printed messages are left out: no result depends on them.
\<close>

subsection \<open>\<^verbatim>\<open>utils.py\<close>: constants and errors\<close>

datatype error =
    FileNotFoundError
  | ValueError
  | AttributeError
  | HTTPException nat

definition CUSTOMER_DIR :: string where
  "CUSTOMER_DIR = ''known_faces''"

definition FAISS_INDEX_PATH :: string where
  "FAISS_INDEX_PATH = ''customer_index.faiss''"

definition THRESHOLD :: real where
  "THRESHOLD = 0.7"

subsection \<open>\<^verbatim>\<open>utils.py\<close>: the index file\<close>

text \<open>
  The file system as far as the code touches it: the directories that exist and the
  index files, each holding the entries of a persisted index in insertion order
  (what \<^verbatim>\<open>faiss.read_index\<close> reads back and \<^verbatim>\<open>faiss.write_index\<close> writes).
  A path is taken to name either a directory or a file, never both.
\<close>

record 'e filesystem =
  dirs :: "string set"
  files :: "string \<rightharpoonup> 'e list"

definition ensure_customer_dir_exists :: "'e filesystem \<Rightarrow> 'e filesystem" where
  "ensure_customer_dir_exists fs =
     (if CUSTOMER_DIR \<notin> dirs fs then fs\<lparr>dirs := insert CUSTOMER_DIR (dirs fs)\<rparr> else fs)"

definition load_or_create_index :: "'e filesystem \<Rightarrow> 'e filesystem \<times> (error + 'e list)" where
  "load_or_create_index fs =
     (let fs1 = ensure_customer_dir_exists fs in
      case files fs1 FAISS_INDEX_PATH of
        None \<Rightarrow> (fs1, Inl FileNotFoundError)
      | Some ix \<Rightarrow> (fs1, Inr ix))"

subsection \<open>Binary floating point\<close>

text \<open>
  A Python \<^verbatim>\<open>float\<close> is an IEEE 754 double. It is modelled by the real number it denotes,
  and an operation by the exact operation followed by \<open>double_round\<close>, the rounding of
  a real to the nearest double (a significand of 53 bits, ties to the even significand,
  gradual underflow below \<open>2 powi - 1022\<close>). Overflow to infinity is outside the model:
  no image is that large. \<open>to_float\<close> is the conversion of an integer. A float argument
  of a function is given as a real number and rounded where it is used: the rounding
  leaves a double as it is and turns a decimal literal into its value.
\<close>

definition rne :: "real \<Rightarrow> int" where
  "rne r =
     (let f = \<lfloor>r\<rfloor>; d = r - of_int f
      in if d < 1 / 2 then f
         else if 1 / 2 < d then f + 1
         else if even f then f else f + 1)"

definition float_exponent :: "real \<Rightarrow> int" where
  "float_exponent v = max \<lfloor>log 2 \<bar>v\<bar>\<rfloor> (- 1022)"

definition double_round :: "real \<Rightarrow> real" where
  "double_round v =
     (if v = 0 then 0
      else of_int (rne (v / 2 powi (float_exponent v - 52))) * 2 powi (float_exponent v - 52))"

definition to_float :: "int \<Rightarrow> real" where
  "to_float k = double_round (of_int k)"

definition fadd :: "real \<Rightarrow> real \<Rightarrow> real" where
  "fadd a b = double_round (a + b)"

definition fsub :: "real \<Rightarrow> real \<Rightarrow> real" where
  "fsub a b = double_round (a - b)"

definition fmul :: "real \<Rightarrow> real \<Rightarrow> real" where
  "fmul a b = double_round (a * b)"

definition fdiv :: "real \<Rightarrow> real \<Rightarrow> real" where
  "fdiv a b = double_round (a / b)"

definition fsqrt :: "real \<Rightarrow> real" where
  "fsqrt a = double_round (sqrt a)"

text \<open>
  The arithmetic of a numpy array of integers (\<^verbatim>\<open>int64\<close>): a result is taken modulo
  \<open>2 ^ 64\<close> into the range from \<open>- 2 ^ 63\<close> to \<open>2 ^ 63 - 1\<close>.
\<close>

definition wrap64 :: "int \<Rightarrow> int" where
  "wrap64 v = (v + 2 ^ 63) mod 2 ^ 64 - 2 ^ 63"

subsection \<open>\<^verbatim>\<open>utils.py\<close>: \<^verbatim>\<open>detect_faces_and_crop\<close>\<close>

text \<open>
  One element of the detector's output is a dictionary; the code reads only its
  \<^verbatim>\<open>facial_area\<close> entry, itself a dictionary with the keys \<^verbatim>\<open>x\<close>, \<^verbatim>\<open>y\<close>, \<^verbatim>\<open>w\<close>,
  \<^verbatim>\<open>h\<close> (the fields \<open>area_x\<close> to \<open>area_h\<close>), \<^verbatim>\<open>left_eye\<close>, \<^verbatim>\<open>right_eye\<close> and \<^verbatim>\<open>nose\<close>.
  A key that is absent is \<open>None\<close>; a landmark that is present is a pair of integers.
\<close>

record region =
  area_x :: "int option"
  area_y :: "int option"
  area_w :: "int option"
  area_h :: "int option"
  left_eye :: "(int \<times> int) option"
  right_eye :: "(int \<times> int) option"
  nose :: "(int \<times> int) option"

record face =
  facial_area :: "region option"

text \<open>The empty dictionary \<^verbatim>\<open>{}\<close>, the default of \<^verbatim>\<open>face.get("facial_area", {})\<close>.\<close>

definition empty_region :: region where
  "empty_region = \<lparr>area_x = None, area_y = None, area_w = None, area_h = None,
     left_eye = None, right_eye = None, nose = None\<rparr>"

definition get_facial_area :: "face \<Rightarrow> region" where
  "get_facial_area f = (case facial_area f of None \<Rightarrow> empty_region | Some r \<Rightarrow> r)"

text \<open>\<^verbatim>\<open>d.get(key, default)\<close> on an entry of the dictionary.\<close>

definition get_or :: "'a option \<Rightarrow> 'a \<Rightarrow> 'a" where
  "get_or v d = (case v of None \<Rightarrow> d | Some a \<Rightarrow> a)"

text \<open>The truth value of a dictionary: it has at least one key.\<close>

definition truthy :: "region \<Rightarrow> bool" where
  "truthy r \<longleftrightarrow> r \<noteq> empty_region"

text \<open>
  The image as \<^verbatim>\<open>cv2.imread\<close> returns it: an array of \<open>img_h\<close> rows, \<open>img_w\<close> columns and
  three channels. The code reads its shape only; the pixel data goes to the external
  models and is kept as an opaque value.
\<close>

record image =
  img_h :: nat
  img_w :: nat
  pixels :: nat

text \<open>
  Python's slice \<^verbatim>\<open>a[start:stop]\<close> on an axis of length \<open>n\<close>: a negative bound counts
  from the end, and both bounds are clipped to the axis.
\<close>

definition slice_bound :: "int \<Rightarrow> int \<Rightarrow> int" where
  "slice_bound i n = (if i < 0 then max (i + n) 0 else min i n)"

definition slice_len :: "int \<Rightarrow> int \<Rightarrow> int \<Rightarrow> int" where
  "slice_len start stop n = max 0 (slice_bound stop n - slice_bound start n)"

text \<open>The crop \<^verbatim>\<open>img[y : y + fh, x : x + fw]\<close>, kept as the slice taken of the image.\<close>

record crop =
  crop_x :: int
  crop_y :: int
  crop_w :: int
  crop_h :: int

definition crop_size :: "image \<Rightarrow> crop \<Rightarrow> int" where
  "crop_size img c =
     slice_len (crop_y c) (crop_y c + crop_h c) (int (img_h img))
     * slice_len (crop_x c) (crop_x c + crop_w c) (int (img_w img)) * 3"

text \<open>
  The edge filter: the condition of the second \<^verbatim>\<open>if\<close> of the loop. The box is made of
  Python integers; the margins \<^verbatim>\<open>img_w * edge_margin_ratio\<close> and
  \<^verbatim>\<open>img_w * (1 - edge_margin_ratio)\<close> (likewise for \<^verbatim>\<open>img_h\<close>) are floats; and Python
  compares an integer with a float by their values.
\<close>

definition low_margin :: "nat \<Rightarrow> real \<Rightarrow> real" where
  "low_margin img_dim edge_margin_ratio =
     fmul (to_float (int img_dim)) (double_round edge_margin_ratio)"

definition high_margin :: "nat \<Rightarrow> real \<Rightarrow> real" where
  "high_margin img_dim edge_margin_ratio =
     fmul (to_float (int img_dim)) (fsub 1 (double_round edge_margin_ratio))"

definition near_edge :: "image \<Rightarrow> real \<Rightarrow> int \<Rightarrow> int \<Rightarrow> int \<Rightarrow> int \<Rightarrow> bool" where
  "near_edge img edge_margin_ratio fx fy fw fh \<longleftrightarrow>
     real_of_int fx < low_margin (img_w img) edge_margin_ratio
     \<or> real_of_int fy < low_margin (img_h img) edge_margin_ratio
     \<or> real_of_int (fx + fw) > high_margin (img_w img) edge_margin_ratio
     \<or> real_of_int (fy + fh) > high_margin (img_h img) edge_margin_ratio"

text \<open>
  The profile filter: \<^verbatim>\<open>asymmetry_ratio\<close> as the code computes it from the landmarks.
  \<^verbatim>\<open>np.array\<close> makes of a landmark an array of \<^verbatim>\<open>int64\<close> (its coordinates are taken to
  fit), so the difference of two landmarks wraps; \<^verbatim>\<open>np.linalg.norm\<close> converts the
  difference to floats and takes the square root of its product with itself (summed
  without a fused multiply-add).
\<close>

definition eye_distance :: "region \<Rightarrow> real" where
  "eye_distance lm =
     (let (lx, ly) = get_or (left_eye lm) (0, 0);
          (rx, ry) = get_or (right_eye lm) (0, 0);
          dx = to_float (wrap64 (lx - rx));
          dy = to_float (wrap64 (ly - ry))
      in fsqrt (fadd (fmul dx dx) (fmul dy dy)))"

definition nose_to_center :: "region \<Rightarrow> real" where
  "nose_to_center lm =
     (let (lx, ly) = get_or (left_eye lm) (0, 0);
          (rx, ry) = get_or (right_eye lm) (0, 0);
          (nx, ny) = get_or (nose lm) (0, 0)
      in \<bar>fsub (fdiv (fadd (to_float lx) (to_float rx)) 2) (to_float nx)\<bar>)"

definition asymmetry_ratio :: "region \<Rightarrow> real" where
  "asymmetry_ratio lm =
     (if eye_distance lm > 0 then fdiv (nose_to_center lm) (eye_distance lm) else 1)"

text \<open>
  The body of the loop over the detections: \<open>None\<close> where the code reaches a
  \<^verbatim>\<open>continue\<close>, the crop it appends otherwise.
\<close>

definition crop_face :: "image \<Rightarrow> real \<Rightarrow> real \<Rightarrow> face \<Rightarrow> crop option" where
  "crop_face img edge_margin_ratio profile_threshold f =
     (let region = get_facial_area f;
          fx = get_or (area_x region) 0;
          fy = get_or (area_y region) 0;
          fw = get_or (area_w region) 0;
          fh = get_or (area_h region) 0
      in if fw \<le> 0 \<or> fh \<le> 0 then None
         else if near_edge img edge_margin_ratio fx fy fw fh then None
         else let c = \<lparr>crop_x = fx, crop_y = fy, crop_w = fw, crop_h = fh\<rparr>
              in if crop_size img c = 0 then None
                 else let landmarks = get_facial_area f
                      in if truthy landmarks
                            \<and> asymmetry_ratio landmarks > double_round profile_threshold
                         then None
                         else Some c)"

primrec crop_faces :: "image \<Rightarrow> real \<Rightarrow> real \<Rightarrow> face list \<Rightarrow> crop list" where
  "crop_faces img edge_margin_ratio profile_threshold [] = []"
| "crop_faces img edge_margin_ratio profile_threshold (f # detections) =
     (case crop_face img edge_margin_ratio profile_threshold f of
        None \<Rightarrow> crop_faces img edge_margin_ratio profile_threshold detections
      | Some c \<Rightarrow> c # crop_faces img edge_margin_ratio profile_threshold detections)"

text \<open>
  \<^verbatim>\<open>detect_faces_and_crop\<close>: \<open>detections\<close> is what the detector returned for the path,
  \<open>img\<close> what \<^verbatim>\<open>cv2.imread\<close> returned (\<open>None\<close> when the file could not be read).
\<close>

definition detect_faces_and_crop ::
  "face list \<Rightarrow> image option \<Rightarrow> real \<Rightarrow> real \<Rightarrow> error + crop list" where
  "detect_faces_and_crop detections img edge_margin_ratio profile_threshold =
     (case img of
        None \<Rightarrow> Inl ValueError
      | Some im \<Rightarrow> Inr (crop_faces im edge_margin_ratio profile_threshold detections))"

subsection \<open>\<^verbatim>\<open>services.py\<close>: \<^verbatim>\<open>RecognitionService\<close>\<close>

text \<open>
  The state the service works on: \<open>index\<close> is \<^verbatim>\<open>self.index\<close>, the entries of the FAISS
  index in insertion order (\<^verbatim>\<open>ntotal\<close> is its length), and \<open>disk\<close> the file system.
  The singleton is taken as constructed (\<^verbatim>\<open>main.py\<close> does so in its startup hook).
\<close>

record 'e state =
  index :: "'e list"
  disk :: "'e filesystem"

text \<open>
  \<^verbatim>\<open>self.index.search(emb, k=1)\<close> on a non-empty index, as the pair
  \<^verbatim>\<open>(float(D[0][0]), int(I[0][0]))\<close>: the similarity of the nearest entry and its rank.
\<close>

type_synonym 'e search = "'e list \<Rightarrow> 'e \<Rightarrow> real \<times> int"

text \<open>
  The dictionary appended to \<^verbatim>\<open>results\<close>, with the keys \<^verbatim>\<open>is_returning\<close>,
  \<^verbatim>\<open>similarity\<close>, \<^verbatim>\<open>index\<close> and (for a new face only) \<^verbatim>\<open>saved_path\<close>.
\<close>

record result =
  r_is_returning :: bool
  r_similarity :: real
  r_index :: int
  r_saved_path :: "string option"

text \<open>
  The binding of the name \<^verbatim>\<open>save_new_customer_face\<close> in the module \<^verbatim>\<open>utils\<close>:
  \<^verbatim>\<open>utils.py\<close> defines no such function, so there is none, and evaluating
  \<^verbatim>\<open>utils.save_new_customer_face\<close> raises \<^verbatim>\<open>AttributeError\<close>. The functions below take
  the binding as their first argument \<open>save\<close>, so that the code's behaviour can be stated
  both as it stands and for a module that would define the function.
\<close>

definition utils_save_new_customer_face :: "(crop \<Rightarrow> string) option" where
  "utils_save_new_customer_face = None"

text \<open>The branch \<^verbatim>\<open>if not is_match\<close> of the loop body (``add to DB'').\<close>

definition add_to_db ::
  "(crop \<Rightarrow> string) option \<Rightarrow> 'e state \<Rightarrow> crop \<Rightarrow> 'e \<Rightarrow> real \<Rightarrow> int
     \<Rightarrow> 'e state \<times> (error + result)" where
  "add_to_db save st face_img emb similarity match_idx =
     (case save of
        None \<Rightarrow> (st, Inl AttributeError)
      | Some save_face \<Rightarrow>
          (let new_path = save_face face_img;
               st1 = st\<lparr>index := index st @ [emb]\<rparr>;
               st2 = st1\<lparr>disk := (disk st1)\<lparr>files :=
                       (files (disk st1))(FAISS_INDEX_PATH \<mapsto> index st1)\<rparr>\<rparr>
           in (st2, Inr \<lparr>r_is_returning = False, r_similarity = similarity,
                        r_index = match_idx, r_saved_path = Some new_path\<rparr>)))"

text \<open>The body of the loop over the face crops.\<close>

definition process_face ::
  "(crop \<Rightarrow> string) option \<Rightarrow> (crop \<Rightarrow> 'e) \<Rightarrow> 'e search \<Rightarrow> 'e state \<Rightarrow> crop
     \<Rightarrow> 'e state \<times> (error + result)" where
  "process_face save compute_embedding search st face_img =
     (let emb = compute_embedding face_img;
          (similarity, match_idx) =
             (if length (index st) = 0 then (0, - 1) else search (index st) emb);
          is_match = (similarity > THRESHOLD)
      in if \<not> is_match then add_to_db save st face_img emb similarity match_idx
         else (st, Inr \<lparr>r_is_returning = True, r_similarity = similarity,
                         r_index = match_idx, r_saved_path = None\<rparr>))"

text \<open>
  The loop: an exception leaves it at once, with the state as the faces before have
  left it.
\<close>

fun recognize_faces ::
  "(crop \<Rightarrow> string) option \<Rightarrow> (crop \<Rightarrow> 'e) \<Rightarrow> 'e search \<Rightarrow> 'e state \<Rightarrow> crop list
     \<Rightarrow> result list \<Rightarrow> 'e state \<times> (error + result list)" where
  "recognize_faces save compute_embedding search st [] results = (st, Inr results)"
| "recognize_faces save compute_embedding search st (face_img # faces) results =
     (case process_face save compute_embedding search st face_img of
        (st', Inl e) \<Rightarrow> (st', Inl e)
      | (st', Inr r) \<Rightarrow> recognize_faces save compute_embedding search st' faces (results @ [r]))"

text \<open>
  \<^verbatim>\<open>recognize_image_path\<close>: \<open>detections\<close> and \<open>img\<close> are what the detector and
  \<^verbatim>\<open>cv2.imread\<close> return for the path, \<open>compute_embedding\<close> the embedding of a crop of that image.
\<close>

definition recognize_image_path ::
  "(crop \<Rightarrow> string) option \<Rightarrow> (crop \<Rightarrow> 'e) \<Rightarrow> 'e search \<Rightarrow> 'e state \<Rightarrow> face list
     \<Rightarrow> image option \<Rightarrow> 'e state \<times> (error + result list)" where
  "recognize_image_path save compute_embedding search st detections img =
     (case detect_faces_and_crop detections img 0.005 0.6 of
        Inl e \<Rightarrow> (st, Inl e)
      | Inr faces \<Rightarrow> recognize_faces save compute_embedding search st faces [])"

subsection \<open>\<^verbatim>\<open>models.py\<close>\<close>

record RecognizeItem =
  is_returning :: bool
  similarity :: real

record RecognizePerImage =
  filename :: string
  num_faces :: nat
  results :: "RecognizeItem list"

record RecognizeBatchResponse =
  items :: "RecognizePerImage list"

text \<open>
  \<^verbatim>\<open>RecognizeItem(**r)\<close>: the model declares two fields, and a key of the dictionary
  that is not a field is ignored.
\<close>

definition RecognizeItem_of :: "result \<Rightarrow> RecognizeItem" where
  "RecognizeItem_of r = \<lparr>is_returning = r_is_returning r, similarity = r_similarity r\<rparr>"

subsection \<open>\<^verbatim>\<open>api.py\<close>: \<^verbatim>\<open>recognize_batch\<close>\<close>

text \<open>An uploaded file: its name, if any, and the bytes read from it.\<close>

record upload =
  upload_filename :: "string option"
  data :: "nat list"

definition no_faces :: "string \<Rightarrow> RecognizePerImage" where
  "no_faces name = \<lparr>filename = name, num_faces = 0, results = []\<rparr>"

text \<open>
  The body of the loop over the files. \<open>imdecode\<close> is \<^verbatim>\<open>cv2.imdecode\<close> (\<open>None\<close> for
  bytes that are no image), \<open>extract_faces\<close> the detector and \<open>compute_embedding\<close> the embedding
  generator on the crops of an image. The image written to the temporary file is the
  one read back from it. Every exception of the \<^verbatim>\<open>try\<close> block is caught.
\<close>

definition process_upload ::
  "(crop \<Rightarrow> string) option \<Rightarrow> (nat list \<Rightarrow> image option) \<Rightarrow> (image \<Rightarrow> face list)
     \<Rightarrow> (image \<Rightarrow> crop \<Rightarrow> 'e) \<Rightarrow> 'e search \<Rightarrow> 'e state \<Rightarrow> upload
     \<Rightarrow> 'e state \<times> RecognizePerImage" where
  "process_upload save imdecode extract_faces compute_embedding search st f =
     (case upload_filename f of
        None \<Rightarrow> (st, no_faces [])
      | Some name \<Rightarrow>
          if name = [] then (st, no_faces [])
          else if data f = [] then (st, no_faces name)
          else (case imdecode (data f) of
                  None \<Rightarrow> (st, no_faces name)
                | Some img \<Rightarrow>
                    (case recognize_image_path save (compute_embedding img) search st
                            (extract_faces img) (Some img) of
                       (st', Inl e) \<Rightarrow> (st', no_faces name)
                     | (st', Inr results_raw) \<Rightarrow>
                         (let its = map RecognizeItem_of results_raw
                          in (st', \<lparr>filename = name, num_faces = length its,
                                    results = its\<rparr>)))))"

fun process_uploads ::
  "(crop \<Rightarrow> string) option \<Rightarrow> (nat list \<Rightarrow> image option) \<Rightarrow> (image \<Rightarrow> face list)
     \<Rightarrow> (image \<Rightarrow> crop \<Rightarrow> 'e) \<Rightarrow> 'e search \<Rightarrow> 'e state \<Rightarrow> upload list
     \<Rightarrow> RecognizePerImage list \<Rightarrow> 'e state \<times> RecognizePerImage list" where
  "process_uploads save imdecode extract_faces compute_embedding search st [] outputs = (st, outputs)"
| "process_uploads save imdecode extract_faces compute_embedding search st (f # uploads) outputs =
     (case process_upload save imdecode extract_faces compute_embedding search st f of
        (st', out) \<Rightarrow>
          process_uploads save imdecode extract_faces compute_embedding search st' uploads
            (outputs @ [out]))"

definition recognize_batch ::
  "(crop \<Rightarrow> string) option \<Rightarrow> (nat list \<Rightarrow> image option) \<Rightarrow> (image \<Rightarrow> face list)
     \<Rightarrow> (image \<Rightarrow> crop \<Rightarrow> 'e) \<Rightarrow> 'e search \<Rightarrow> 'e state \<Rightarrow> upload list
     \<Rightarrow> 'e state \<times> (error + RecognizeBatchResponse)" where
  "recognize_batch save imdecode extract_faces compute_embedding search st uploads =
     (if uploads = [] then (st, Inl (HTTPException 400))
      else (case process_uploads save imdecode extract_faces compute_embedding search st uploads [] of
              (st', outputs) \<Rightarrow> (st', Inr \<lparr>items = outputs\<rparr>)))"

subsection \<open>Example inputs\<close>

text \<open>
  An image of 1000 by 1000 pixels, and a frontal face detected in it: a box of 200 by
  200 pixels whose left edge is at column \<open>a\<close>, the eyes level and the nose midway
  between them.
\<close>

definition example_image :: image where
  "example_image = \<lparr>img_h = 1000, img_w = 1000, pixels = 0\<rparr>"

definition example_face :: "int \<Rightarrow> face" where
  "example_face a = \<lparr>facial_area = Some \<lparr>area_x = Some a, area_y = Some 100,
     area_w = Some 200, area_h = Some 200, left_eye = Some (a + 50, 150),
     right_eye = Some (a + 150, 150), nose = Some (a + 100, 200)\<rparr>\<rparr>"

text \<open>The same face in a box whose upper edge is at row \<open>b\<close>.\<close>

definition example_face_row :: "int \<Rightarrow> face" where
  "example_face_row b = \<lparr>facial_area = Some \<lparr>area_x = Some 100, area_y = Some b,
     area_w = Some 200, area_h = Some 200, left_eye = Some (150, b + 50),
     right_eye = Some (250, b + 50), nose = Some (200, b + 100)\<rparr>\<rparr>"

text \<open>
  Faces in the same box whose landmarks differ: the nose at column \<open>n\<close> between eyes
  at the columns 150 and 250; both eyes at the same point; no landmark at all.
\<close>

definition example_turned_face :: "int \<Rightarrow> face" where
  "example_turned_face n = \<lparr>facial_area = Some \<lparr>area_x = Some 100, area_y = Some 100,
     area_w = Some 200, area_h = Some 200, left_eye = Some (150, 150),
     right_eye = Some (250, 150), nose = Some (n, 200)\<rparr>\<rparr>"

definition example_face_eyes_coincide :: face where
  "example_face_eyes_coincide = \<lparr>facial_area = Some \<lparr>area_x = Some 100,
     area_y = Some 100, area_w = Some 200, area_h = Some 200, left_eye = Some (150, 150),
     right_eye = Some (150, 150), nose = Some (150, 200)\<rparr>\<rparr>"

definition example_face_no_landmarks :: face where
  "example_face_no_landmarks = \<lparr>facial_area = Some \<lparr>area_x = Some 100,
     area_y = Some 100, area_w = Some 200, area_h = Some 200, left_eye = None,
     right_eye = None, nose = None\<rparr>\<rparr>"

text \<open>
  A service whose index holds the entries \<open>ix\<close> and whose index file holds the same, over
  embeddings that are numbers; a search that finds an equal entry with similarity 1 at
  its first rank and reports 0.5 at rank 0 otherwise; the crop of \<open>example_face 100\<close>.
\<close>

definition example_state :: "nat list \<Rightarrow> nat state" where
  "example_state ix = \<lparr>index = ix,
     disk = \<lparr>dirs = {CUSTOMER_DIR}, files = [FAISS_INDEX_PATH \<mapsto> ix]\<rparr>\<rparr>"

definition example_search :: "nat search" where
  "example_search ix q = (if q \<in> set ix then (1, int (length (takeWhile (\<lambda>e. e \<noteq> q) ix)))
     else (0.5, 0))"

definition example_crop :: crop where
  "example_crop = \<lparr>crop_x = 100, crop_y = 100, crop_w = 200, crop_h = 200\<rparr>"

text \<open>
  A decoder that rejects the bytes starting with 0 and otherwise yields an image of
  1000 by 1000 pixels whose content is the first byte; a detector that finds
  \<open>example_face 100\<close> in every image; an embedding generator for which the identity of
  a face is the content of its image. Two batches of uploads: one with a file of each
  kind, one with two images of the same identity.
\<close>

definition example_imdecode :: "nat list \<Rightarrow> image option" where
  "example_imdecode bytes =
     (case bytes of
        [] \<Rightarrow> None
      | b # _ \<Rightarrow> if b = 0 then None else Some \<lparr>img_h = 1000, img_w = 1000, pixels = b\<rparr>)"

definition example_extract_faces :: "image \<Rightarrow> face list" where
  "example_extract_faces img = [example_face 100]"

definition example_embedding :: "image \<Rightarrow> crop \<Rightarrow> nat" where
  "example_embedding img c = pixels img"

definition example_uploads :: "upload list" where
  "example_uploads =
     [\<lparr>upload_filename = None, data = [1]\<rparr>,
      \<lparr>upload_filename = Some ''empty.jpg'', data = []\<rparr>,
      \<lparr>upload_filename = Some ''broken.jpg'', data = [0]\<rparr>,
      \<lparr>upload_filename = Some ''new.jpg'', data = [1]\<rparr>,
      \<lparr>upload_filename = Some ''known.jpg'', data = [2]\<rparr>]"

definition example_same_identity :: "upload list" where
  "example_same_identity =
     [\<lparr>upload_filename = Some ''first.jpg'', data = [1]\<rparr>,
      \<lparr>upload_filename = Some ''second.jpg'', data = [1]\<rparr>]"

section \<open>The index file\<close>

text \<open>
  Claim C7. When no index file exists at \<^verbatim>\<open>FAISS_INDEX_PATH\<close>, \<^verbatim>\<open>load_or_create_index\<close>
  raises \<^verbatim>\<open>FileNotFoundError\<close> and leaves the path without a file: no empty index is
  created or returned. When the file exists, the index persisted in it is returned.
\<close>

theorem load_or_create_index_fails_or_loads:
  "(files fsys FAISS_INDEX_PATH = None \<longrightarrow>
      snd (load_or_create_index fsys) = Inl FileNotFoundError
      \<and> files (fst (load_or_create_index fsys)) FAISS_INDEX_PATH = None)
   \<and> (\<forall>ix. files fsys FAISS_INDEX_PATH = Some ix \<longrightarrow>
         snd (load_or_create_index fsys) = Inr ix)"
  by (simp add: load_or_create_index_def ensure_customer_dir_exists_def Let_def)

theorem load_or_create_index_fails_or_loads_witness:
  "files \<lparr>dirs = {}, files = (Map.empty :: string \<rightharpoonup> nat list)\<rparr> FAISS_INDEX_PATH = None
   \<and> load_or_create_index \<lparr>dirs = {}, files = (Map.empty :: string \<rightharpoonup> nat list)\<rparr> =
       (\<lparr>dirs = {CUSTOMER_DIR}, files = Map.empty\<rparr>, Inl FileNotFoundError)
   \<and> snd (load_or_create_index
          \<lparr>dirs = {CUSTOMER_DIR}, files = [FAISS_INDEX_PATH \<mapsto> [1, 2 :: nat]]\<rparr>) =
       Inr [1, 2]"
  using load_or_create_index_fails_or_loads
          [of "\<lparr>dirs = {}, files = (Map.empty :: string \<rightharpoonup> nat list)\<rparr>"]
        load_or_create_index_fails_or_loads
          [of "\<lparr>dirs = {CUSTOMER_DIR}, files = [FAISS_INDEX_PATH \<mapsto> [1, 2 :: nat]]\<rparr>"]
  by (simp add: load_or_create_index_def ensure_customer_dir_exists_def Let_def)

section \<open>Rounding to a double\<close>

lemma rne_of_int: "rne (of_int k) = k"
  by (simp add: rne_def)

lemma float_exponent_eqI:
  assumes "2 powi e \<le> \<bar>v\<bar>" and "\<bar>v\<bar> < 2 powi (e + 1)" and "- 1022 \<le> e"
  shows "float_exponent v = e"
proof -
  have pos: "0 < \<bar>v\<bar>"
    using assms(1) by (smt (verit) zero_less_power_int)
  have "\<lfloor>log 2 \<bar>v\<bar>\<rfloor> = e"
    using assms(1,2) pos
    by (simp add: floor_log_eq_powr_iff powr_real_of_int' flip: of_int_add [where ?'a = real]
        del: of_int_add)
  then show ?thesis
    using assms(3) by (simp add: float_exponent_def)
qed

lemma double_round_eqI:
  assumes "2 powi e \<le> \<bar>v\<bar>" and "\<bar>v\<bar> < 2 powi (e + 1)" and "- 1022 \<le> e"
  shows "double_round v = of_int (rne (v / 2 powi (e - 52))) * 2 powi (e - 52)"
proof -
  have "v \<noteq> 0"
    using assms(1) by (smt (verit) zero_less_power_int)
  then show ?thesis
    by (simp add: double_round_def float_exponent_eqI [OF assms])
qed


lemma float_exponent_le:
  assumes "v \<noteq> 0" and "\<bar>v\<bar> < 2 powi (k + 1)" and "- 1022 \<le> k"
  shows "float_exponent v \<le> k"
proof -
  have "log 2 \<bar>v\<bar> < real_of_int (k + 1)"
    using assms(1,2) by (simp add: less_powr_iff [symmetric] powr_real_of_int' del: of_int_add)
  then have "\<lfloor>log 2 \<bar>v\<bar>\<rfloor> \<le> k"
    by (simp add: floor_le_iff)
  then show ?thesis
    using assms(3) by (simp add: float_exponent_def)
qed

lemma double_round_exact:
  assumes "v = of_int m * 2 powi p" and "\<bar>m\<bar> < 2 ^ 53" and "- 1074 \<le> p"
  shows "double_round v = v"
proof (cases "m = 0")
  case True
  then show ?thesis using assms(1) by (simp add: double_round_def)
next
  case False
  then have nz: "v \<noteq> 0"
    using assms(1) by simp
  define q where "q = float_exponent v - 52"
  have "\<bar>v\<bar> = of_int \<bar>m\<bar> * 2 powi p"
    using assms(1) by (simp add: abs_mult)
  also have "\<dots> < 2 ^ 53 * 2 powi p"
  proof -
    have "real_of_int \<bar>m\<bar> < 2 ^ 53"
      using assms(2) by (metis of_int_less_numeral_power_cancel_iff)
    then show ?thesis by simp
  qed
  also have "\<dots> = 2 powi ((52 + p) + 1)"
    by (simp add: power_int_add)
  finally have "float_exponent v \<le> 52 + p"
    using nz assms(3) by (intro float_exponent_le) simp_all
  then have qp: "q \<le> p"
    by (simp add: q_def)
  have "v / 2 powi q = of_int m * 2 powi (p - q)"
    using assms(1) by (simp add: power_int_diff)
  also have "\<dots> = of_int (m * 2 ^ nat (p - q))"
    using qp by (simp add: power_int_def)
  finally have "rne (v / 2 powi q) = m * 2 ^ nat (p - q)"
    by (simp only: rne_of_int)
  then have "double_round v = of_int (m * 2 ^ nat (p - q)) * 2 powi q"
    using nz by (simp add: double_round_def q_def)
  also have "\<dots> = of_int m * (2 powi (p - q) * 2 powi q)"
    using qp by (simp add: power_int_def)
  also have "\<dots> = of_int m * 2 powi p"
    by (simp flip: power_int_add)
  finally show ?thesis
    using assms(1) by simp
qed

lemma double_round_of_int: "\<bar>k\<bar> < 2 ^ 53 \<Longrightarrow> double_round (of_int k) = of_int k"
  by (rule double_round_exact [where m = k and p = 0]) simp_all

lemma double_round_half: "\<bar>k\<bar> < 2 ^ 53 \<Longrightarrow> double_round (of_int k / 2) = of_int k / 2"
  by (rule double_round_exact [where m = k and p = "- 1"]) simp_all

lemma rne_ge_floor: "\<lfloor>r\<rfloor> \<le> rne r"
  by (simp add: rne_def Let_def)

lemma double_round_pos:
  assumes "1 \<le> v"
  shows "0 < double_round v"
proof -
  define e where "e = \<lfloor>log 2 \<bar>v\<bar>\<rfloor>"
  have v: "0 < v" "\<bar>v\<bar> = v" using assms by simp_all
  have "0 \<le> log 2 v"
    using assms by simp
  then have e0: "0 \<le> e"
    by (simp add: e_def v)
  then have fe: "float_exponent v = e"
    by (simp add: float_exponent_def e_def)
  have "2 powr (real_of_int e) \<le> v"
    using floor_log_eq_powr_iff [of v 2 e] v by (simp add: e_def)
  then have low: "2 powi e \<le> v"
    by (simp add: powr_real_of_int')
  have "(2::real) ^ 52 = 2 powi e / 2 powi (e - 52)"
    by (simp add: power_int_diff)
  also have "\<dots> \<le> v / 2 powi (e - 52)"
    using low by (simp add: divide_right_mono)
  finally have big: "(2::real) ^ 52 \<le> v / 2 powi (e - 52)" .
  have "(1::real) \<le> 2 ^ 52"
    by simp
  then have "1 \<le> v / 2 powi (e - 52)"
    using big by (rule order_trans)
  then have "1 \<le> \<lfloor>v / 2 powi (e - 52)\<rfloor>"
    by (simp add: le_floor_iff)
  then have "1 \<le> rne (v / 2 powi (e - 52))"
    using rne_ge_floor [of "v / 2 powi (e - 52)"] by linarith
  then have "0 < real_of_int (rne (v / 2 powi (e - 52))) * 2 powi (e - 52)"
    by (simp add: zero_less_mult_iff)
  then show ?thesis
    using v by (simp add: double_round_def fe)
qed

lemma double_round_zero: "double_round 0 = 0"
  by (simp add: double_round_def)


lemma double_round_numeral:
  "(numeral n :: int) < 2 ^ 53 \<Longrightarrow> double_round (numeral n) = numeral n"
  using double_round_of_int [of "numeral n"] by simp

lemma double_round_one: "double_round 1 = 1"
  using double_round_of_int [of 1] by simp

section \<open>The face candidate filter\<close>

lemma to_float_exact: "\<bar>k\<bar> < 2 ^ 53 \<Longrightarrow> to_float k = of_int k"
  by (simp add: to_float_def double_round_of_int)

lemma wrap64_id: "- (2 ^ 63) \<le> v \<Longrightarrow> v < 2 ^ 63 \<Longrightarrow> wrap64 v = v"
  by (simp add: wrap64_def)

lemma square_bound:
  fixes d :: int
  assumes "\<bar>d\<bar> < 2 ^ 26"
  shows "d * d < 2 ^ 52" and "0 \<le> d * d"
proof -
  have "\<bar>d\<bar> * \<bar>d\<bar> < 2 ^ 26 * 2 ^ 26"
    using assms by (intro mult_strict_mono) simp_all
  then show "d * d < 2 ^ 52"
    by (simp add: abs_mult_self_eq)
  show "0 \<le> d * d" by simp
qed

text \<open>
  For landmarks whose coordinates are below \<open>2 ^ 25\<close> in absolute value, every operation
  before the square root and the final division is exact.
\<close>

lemma eye_distance_bounded:
  assumes "left_eye reg = Some (lx, ly)" and "right_eye reg = Some (rx, ry)"
    and "\<bar>lx\<bar> < 2 ^ 25" and "\<bar>ly\<bar> < 2 ^ 25" and "\<bar>rx\<bar> < 2 ^ 25" and "\<bar>ry\<bar> < 2 ^ 25"
  shows "eye_distance reg =
           double_round (sqrt (real_of_int ((lx - rx) * (lx - rx) + (ly - ry) * (ly - ry))))"
proof -
  define dx dy where "dx = lx - rx" and "dy = ly - ry"
  have bdx: "\<bar>dx\<bar> < 2 ^ 26" and bdy: "\<bar>dy\<bar> < 2 ^ 26"
    using assms(3-6) by (simp_all add: dx_def dy_def)
  have wx: "wrap64 dx = dx" and wy: "wrap64 dy = dy"
    using bdx bdy by (simp_all add: wrap64_id)
  have fx: "to_float dx = of_int dx" and fy: "to_float dy = of_int dy"
    using bdx bdy by (simp_all add: to_float_exact)
  have sx: "\<bar>dx * dx\<bar> < 2 ^ 53" and sy: "\<bar>dy * dy\<bar> < 2 ^ 53"
    using square_bound [OF bdx] square_bound [OF bdy] by simp_all
  have mx: "fmul (of_int dx) (of_int dx) = of_int (dx * dx)"
    using double_round_of_int [OF sx] by (simp add: fmul_def)
  have my: "fmul (of_int dy) (of_int dy) = of_int (dy * dy)"
    using double_round_of_int [OF sy] by (simp add: fmul_def)
  have "\<bar>dx * dx + dy * dy\<bar> < 2 ^ 53"
    using square_bound [OF bdx] square_bound [OF bdy] by simp
  then have sum: "fadd (of_int (dx * dx)) (of_int (dy * dy)) = of_int (dx * dx + dy * dy)"
    using double_round_of_int [of "dx * dx + dy * dy"] by (simp add: fadd_def)
  have "eye_distance reg =
      fsqrt (fadd (fmul (to_float (wrap64 dx)) (to_float (wrap64 dx)))
                  (fmul (to_float (wrap64 dy)) (to_float (wrap64 dy))))"
    using assms(1,2) by (simp add: eye_distance_def get_or_def dx_def dy_def Let_def)
  also have "\<dots> = fsqrt (of_int (dx * dx + dy * dy))"
    by (simp only: wx wy fx fy mx my sum)
  finally show ?thesis
    by (simp add: fsqrt_def dx_def dy_def)
qed

lemma nose_to_center_bounded:
  assumes "left_eye reg = Some (lx, ly)" and "right_eye reg = Some (rx, ry)"
    and "nose reg = Some (nx, ny)"
    and "\<bar>lx\<bar> < 2 ^ 25" and "\<bar>rx\<bar> < 2 ^ 25" and "\<bar>nx\<bar> < 2 ^ 25"
  shows "nose_to_center reg = \<bar>real_of_int (lx + rx) / 2 - real_of_int nx\<bar>"
proof -
  have fl: "to_float lx = of_int lx" and fr: "to_float rx = of_int rx"
    and fn: "to_float nx = of_int nx"
    using assms(4-6) by (simp_all add: to_float_exact)
  have "\<bar>lx + rx\<bar> < 2 ^ 53"
    using assms(4,5) by simp
  then have add: "fadd (of_int lx) (of_int rx) = of_int (lx + rx)"
    using double_round_of_int [of "lx + rx"] by (simp add: fadd_def)
  have half: "fdiv (of_int (lx + rx)) 2 = of_int (lx + rx) / 2"
    using double_round_half [of "lx + rx"] \<open>\<bar>lx + rx\<bar> < 2 ^ 53\<close> by (simp add: fdiv_def)
  have b3: "\<bar>lx + rx - 2 * nx\<bar> < 2 ^ 53"
    using assms(4-6) by simp
  have eq: "real_of_int (lx + rx) / 2 - real_of_int nx = real_of_int (lx + rx - 2 * nx) / 2"
    by simp
  have sub: "fsub (of_int (lx + rx) / 2) (of_int nx) =
      of_int (lx + rx) / 2 - of_int nx"
    unfolding fsub_def eq using b3 by (rule double_round_half)
  have "nose_to_center reg =
      \<bar>fsub (fdiv (fadd (to_float lx) (to_float rx)) 2) (to_float nx)\<bar>"
    using assms(1-3) by (simp add: nose_to_center_def get_or_def)
  also have "\<dots> = \<bar>real_of_int (lx + rx) / 2 - real_of_int nx\<bar>"
    by (simp only: fl fr fn add half sub)
  finally show ?thesis .
qed

lemma eye_distance_positive:
  assumes "left_eye reg = Some (lx, ly)" and "right_eye reg = Some (rx, ry)"
    and "\<bar>lx\<bar> < 2 ^ 25" and "\<bar>ly\<bar> < 2 ^ 25" and "\<bar>rx\<bar> < 2 ^ 25" and "\<bar>ry\<bar> < 2 ^ 25"
  shows "eye_distance reg > 0 \<longleftrightarrow> \<not> (lx = rx \<and> ly = ry)"
proof (cases "lx = rx \<and> ly = ry")
  case True
  then show ?thesis
    by (simp add: eye_distance_bounded [OF assms] double_round_zero)
next
  case False
  define n where "n = (lx - rx) * (lx - rx) + (ly - ry) * (ly - ry)"
  have "n \<noteq> 0"
    using False by (auto simp add: n_def sum_squares_eq_zero_iff)
  moreover have "0 \<le> n"
    by (simp add: n_def)
  ultimately have "1 \<le> n" by simp
  then have "1 \<le> sqrt (real_of_int n)"
    by simp
  then have "0 < double_round (sqrt (real_of_int n))"
    by (rule double_round_pos)
  then show ?thesis
    using False by (simp add: eye_distance_bounded [OF assms] n_def)
qed

lemma asymmetry_ratio_bounded:
  assumes "left_eye reg = Some (lx, ly)" and "right_eye reg = Some (rx, ry)"
    and "nose reg = Some (nx, ny)"
    and "\<bar>lx\<bar> < 2 ^ 25" and "\<bar>ly\<bar> < 2 ^ 25" and "\<bar>rx\<bar> < 2 ^ 25" and "\<bar>ry\<bar> < 2 ^ 25"
    and "\<bar>nx\<bar> < 2 ^ 25"
  shows "asymmetry_ratio reg =
           (if lx = rx \<and> ly = ry then 1
            else double_round (\<bar>real_of_int (lx + rx) / 2 - real_of_int nx\<bar>
                   / double_round (sqrt (real_of_int
                       ((lx - rx) * (lx - rx) + (ly - ry) * (ly - ry))))))"
  using eye_distance_positive [OF assms(1,2,4-7)] eye_distance_bounded [OF assms(1,2,4-7)]
    nose_to_center_bounded [OF assms(1-4,6,8)]
  by (simp add: asymmetry_ratio_def fdiv_def)

lemma crop_face_eq:
  assumes "get_facial_area f = reg"
    and "get_or (area_x reg) 0 = fx" and "get_or (area_y reg) 0 = fy"
    and "get_or (area_w reg) 0 = fw" and "get_or (area_h reg) 0 = fh"
  shows "crop_face img emr pt f =
     (if fw \<le> 0 \<or> fh \<le> 0 then None
      else if near_edge img emr fx fy fw fh then None
      else if crop_size img \<lparr>crop_x = fx, crop_y = fy, crop_w = fw, crop_h = fh\<rparr> = 0
        then None
      else if truthy reg \<and> asymmetry_ratio reg > double_round pt then None
      else Some \<lparr>crop_x = fx, crop_y = fy, crop_w = fw, crop_h = fh\<rparr>)"
  using assms by (simp add: crop_face_def Let_def)

text \<open>The doubles of the example inputs.\<close>

lemma double_0005: "double_round (1 / 200) = 5764607523034235 / 2 ^ 60"
  by (subst double_round_eqI [where e = "- 8"]) (simp_all add: rne_def power_int_minus)

lemma double_06: "double_round (3 / 5) = 5404319552844595 / 2 ^ 53"
  by (subst double_round_eqI [where e = "- 1"]) (simp_all add: rne_def power_int_minus)

lemma double_061: "double_round (61 / 100) = 5494391545392005 / 2 ^ 53"
  by (subst double_round_eqI [where e = "- 1"]) (simp_all add: rne_def power_int_minus)

lemma low_margin_1000: "low_margin 1000 (1 / 200) = 5"
proof -
  have a: "double_round (1000 * (5764607523034235 / 2 ^ 60)) = 5"
    by (subst double_round_eqI [where e = 2]) (simp_all add: rne_def power_int_minus)
  have c: "to_float (int 1000) = 1000"
    by (simp add: to_float_exact)
  show ?thesis
    by (simp only: low_margin_def fmul_def double_0005 a c)
qed

lemma high_margin_1000: "high_margin 1000 (1 / 200) = 995"
proof -
  have a: "double_round (1 - 5764607523034235 / 2 ^ 60) = 8962163258467287 / 2 ^ 53"
    by (subst double_round_eqI [where e = "- 1"]) (simp_all add: rne_def power_int_minus)
  have b: "double_round (1000 * (8962163258467287 / 2 ^ 53)) = 995"
    by (subst double_round_eqI [where e = 9]) (simp_all add: rne_def power_int_minus)
  have c: "to_float (int 1000) = 1000"
    by (simp add: to_float_exact)
  show ?thesis
    by (simp only: high_margin_def fmul_def fsub_def double_0005 a b c)
qed

lemma near_edge_1000:
  assumes "img_h img = 1000" and "img_w img = 1000"
  shows "near_edge img (1 / 200) fx fy fw fh \<longleftrightarrow>
     fx < 5 \<or> fy < 5 \<or> 995 < fx + fw \<or> 995 < fy + fh"
  using assms by (simp add: near_edge_def low_margin_1000 high_margin_1000 del: of_int_add)

lemma sqrt_10000: "sqrt 10000 = 100"
  by (rule real_sqrt_unique) simp_all

lemma crop_size_1000:
  assumes "img_h img = 1000" and "img_w img = 1000"
    and "5 \<le> fx" and "5 \<le> fy" and "fx + fw \<le> 995" and "fy + fh \<le> 995"
    and "0 < fw" and "0 < fh"
  shows "crop_size img \<lparr>crop_x = fx, crop_y = fy, crop_w = fw, crop_h = fh\<rparr> \<noteq> 0"
  using assms by (simp add: crop_size_def slice_len_def slice_bound_def)

lemma asymmetry_example_face:
  assumes "\<bar>a\<bar> < 2 ^ 20"
  shows "asymmetry_ratio (get_facial_area (example_face a)) = 0"
proof -
  have "\<bar>a + 50\<bar> < 2 ^ 25" and "\<bar>a + 150\<bar> < 2 ^ 25" and "\<bar>a + 100\<bar> < 2 ^ 25"
    using assms by simp_all
  then have "asymmetry_ratio (get_facial_area (example_face a)) =
      double_round (\<bar>real_of_int (a + 50 + (a + 150)) / 2 - real_of_int (a + 100)\<bar>
        / double_round (sqrt (real_of_int
            ((a + 50 - (a + 150)) * (a + 50 - (a + 150)) + (150 - 150) * (150 - 150)))))"
    by (subst asymmetry_ratio_bounded [of _ "a + 50" 150 "a + 150" 150 "a + 100" 200])
      (simp_all add: example_face_def get_facial_area_def)
  also have "\<bar>real_of_int (a + 50 + (a + 150)) / 2 - real_of_int (a + 100)\<bar> = 0"
    by simp
  finally show ?thesis
    by (simp add: double_round_zero)
qed

lemma crop_example_face:
  assumes "img_h img = 1000" and "img_w img = 1000" and "\<bar>a\<bar> < 2 ^ 20"
  shows "crop_face img 0.005 0.6 (example_face a) =
     (if a < 5 \<or> 795 < a then None
      else Some \<lparr>crop_x = a, crop_y = 100, crop_w = 200, crop_h = 200\<rparr>)"
proof -
  have box: "get_or (area_x (get_facial_area (example_face a))) 0 = a"
    "get_or (area_y (get_facial_area (example_face a))) 0 = 100"
    "get_or (area_w (get_facial_area (example_face a))) 0 = 200"
    "get_or (area_h (get_facial_area (example_face a))) 0 = 200"
    by (simp_all add: example_face_def get_facial_area_def get_or_def)
  have size: "crop_size img \<lparr>crop_x = a, crop_y = 100, crop_w = 200, crop_h = 200\<rparr> \<noteq> 0"
    if "5 \<le> a" "a \<le> 795"
    using that by (intro crop_size_1000 assms) simp_all
  have ratio: "\<not> asymmetry_ratio (get_facial_area (example_face a)) > double_round 0.6"
    by (simp add: asymmetry_example_face [OF assms(3)] double_06)
  show ?thesis
    unfolding crop_face_eq [OF refl box]
    using size ratio by (auto simp add: near_edge_1000 [OF assms(1,2)])
qed

lemma asymmetry_example_face_row:
  assumes "\<bar>b\<bar> < 2 ^ 20"
  shows "asymmetry_ratio (get_facial_area (example_face_row b)) = 0"
proof -
  have "\<bar>b + 50\<bar> < 2 ^ 25"
    using assms by simp
  then have "asymmetry_ratio (get_facial_area (example_face_row b)) =
      double_round (\<bar>real_of_int (150 + 250) / 2 - real_of_int 200\<bar>
        / double_round (sqrt (real_of_int
            ((150 - 250) * (150 - 250) + (b + 50 - (b + 50)) * (b + 50 - (b + 50))))))"
    by (subst asymmetry_ratio_bounded [of _ 150 "b + 50" 250 "b + 50" 200 "b + 100"])
      (simp_all add: example_face_row_def get_facial_area_def)
  then show ?thesis
    by (simp add: double_round_zero)
qed

lemma crop_example_face_row:
  assumes "img_h img = 1000" and "img_w img = 1000" and "\<bar>b\<bar> < 2 ^ 20"
  shows "crop_face img 0.005 0.6 (example_face_row b) =
     (if b < 5 \<or> 795 < b then None
      else Some \<lparr>crop_x = 100, crop_y = b, crop_w = 200, crop_h = 200\<rparr>)"
proof -
  have box: "get_or (area_x (get_facial_area (example_face_row b))) 0 = 100"
    "get_or (area_y (get_facial_area (example_face_row b))) 0 = b"
    "get_or (area_w (get_facial_area (example_face_row b))) 0 = 200"
    "get_or (area_h (get_facial_area (example_face_row b))) 0 = 200"
    by (simp_all add: example_face_row_def get_facial_area_def get_or_def)
  have size: "crop_size img \<lparr>crop_x = 100, crop_y = b, crop_w = 200, crop_h = 200\<rparr> \<noteq> 0"
    if "5 \<le> b" "b \<le> 795"
    using that by (intro crop_size_1000 assms) simp_all
  have ratio: "\<not> asymmetry_ratio (get_facial_area (example_face_row b)) > double_round 0.6"
    by (simp add: asymmetry_example_face_row [OF assms(3)] double_06)
  show ?thesis
    unfolding crop_face_eq [OF refl box]
    using size ratio by (auto simp add: near_edge_1000 [OF assms(1,2)])
qed

lemma example_image_shape: "img_h example_image = 1000" "img_w example_image = 1000"
  by (simp_all add: example_image_def)

lemmas crop_example = crop_example_face [OF example_image_shape]
  crop_example_face_row [OF example_image_shape]

lemma crop_example_face_4: "crop_face example_image 0.005 0.6 (example_face 4) = None"
  by (subst crop_example) simp_all

lemma crop_example_face_5:
  "crop_face example_image 0.005 0.6 (example_face 5) =
     Some \<lparr>crop_x = 5, crop_y = 100, crop_w = 200, crop_h = 200\<rparr>"
  by (subst crop_example) simp_all

lemma crop_example_face_6:
  "crop_face example_image 0.005 0.6 (example_face 6) =
     Some \<lparr>crop_x = 6, crop_y = 100, crop_w = 200, crop_h = 200\<rparr>"
  by (subst crop_example) simp_all

lemma crop_example_face_100:
  "crop_face example_image 0.005 0.6 (example_face 100) =
     Some \<lparr>crop_x = 100, crop_y = 100, crop_w = 200, crop_h = 200\<rparr>"
  by (subst crop_example) simp_all

lemma crop_example_face_795:
  "crop_face example_image 0.005 0.6 (example_face 795) =
     Some \<lparr>crop_x = 795, crop_y = 100, crop_w = 200, crop_h = 200\<rparr>"
  by (subst crop_example) simp_all

lemma crop_example_face_796: "crop_face example_image 0.005 0.6 (example_face 796) = None"
  by (subst crop_example) simp_all

lemma crop_example_face_row_4:
  "crop_face example_image 0.005 0.6 (example_face_row 4) = None"
  by (subst crop_example) simp_all

lemma crop_example_face_row_5:
  "crop_face example_image 0.005 0.6 (example_face_row 5) =
     Some \<lparr>crop_x = 100, crop_y = 5, crop_w = 200, crop_h = 200\<rparr>"
  by (subst crop_example) simp_all

lemma crop_example_face_row_795:
  "crop_face example_image 0.005 0.6 (example_face_row 795) =
     Some \<lparr>crop_x = 100, crop_y = 795, crop_w = 200, crop_h = 200\<rparr>"
  by (subst crop_example) simp_all

lemma crop_example_face_row_796:
  "crop_face example_image 0.005 0.6 (example_face_row 796) = None"
  by (subst crop_example) simp_all

lemma crop_face_inside:
  assumes "crop_face img emr pt f = Some c"
  shows "low_margin (img_w img) emr \<le> real_of_int (crop_x c)
     \<and> low_margin (img_h img) emr \<le> real_of_int (crop_y c)
     \<and> real_of_int (crop_x c + crop_w c) \<le> high_margin (img_w img) emr
     \<and> real_of_int (crop_y c + crop_h c) \<le> high_margin (img_h img) emr"
  using assms
  by (auto simp add: crop_face_def near_edge_def Let_def split: if_splits)

lemma crop_faces_set:
  "c \<in> set (crop_faces img emr pt dets) \<Longrightarrow> \<exists>f \<in> set dets. crop_face img emr pt f = Some c"
  by (induction dets) (auto split: option.splits)

text \<open>
  The margins are the rounded products: for an image of 90 by 90 and the ratio 0.3 the
  upper margin is the double below 63, and a box that ends at 63 is beyond it.
\<close>

lemma margins_follow_float_rounding:
  "low_margin 90 0.3 = 27 \<and> high_margin 90 0.3 = 8866461766385663 / 2 ^ 47
   \<and> near_edge \<lparr>img_h = 90, img_w = 90, pixels = 0\<rparr> 0.3 27 27 36 36"
proof -
  have r: "double_round (3 / 10) = 5404319552844595 / 2 ^ 54"
    by (subst double_round_eqI [where e = "- 2"]) (simp_all add: rne_def power_int_minus)
  have c: "to_float (int 90) = 90"
    by (simp add: to_float_exact)
  have lo: "double_round (90 * (5404319552844595 / 2 ^ 54)) = 27"
    by (subst double_round_eqI [where e = 4]) (simp_all add: rne_def power_int_minus)
  have s: "double_round (1 - 5404319552844595 / 2 ^ 54) = 6305039478318694 / 2 ^ 53"
    by (subst double_round_eqI [where e = "- 1"]) (simp_all add: rne_def power_int_minus)
  have hi: "double_round (90 * (6305039478318694 / 2 ^ 53)) = 8866461766385663 / 2 ^ 47"
    by (subst double_round_eqI [where e = 5]) (simp_all add: rne_def power_int_minus)
  have r': "double_round 0.3 = 5404319552844595 / 2 ^ 54"
    using r by simp
  have low: "low_margin 90 0.3 = 27"
    by (simp only: low_margin_def fmul_def r' c lo)
  have high: "high_margin 90 0.3 = 8866461766385663 / 2 ^ 47"
    by (simp only: high_margin_def fmul_def fsub_def r' c s hi)
  have "near_edge \<lparr>img_h = 90, img_w = 90, pixels = 0\<rparr> 0.3 27 27 36 36"
    unfolding near_edge_def by (simp only: image.simps low high) simp
  with low high show ?thesis by blast
qed

text \<open>
  Claim C9, as amended. The margins are the floats that the code computes: the image's
  width or height times \<open>edge_margin_ratio\<close>, and times one minus that ratio. The edge
  filter rejects every detection whose box goes beyond a margin, and a box whose border
  is on a margin or inside is not rejected for it (it is retained when the other tests
  of the loop let it pass): the comparisons are strict. So every crop that
  \<^verbatim>\<open>detect_faces_and_crop\<close> returns lies within the margins. For an image of 1000 by
  1000 and the ratio 0.005 the margins are 5 and 995; the boxes starting at \<open>x = 4\<close>
  and ending at 996 are rejected, the boxes starting at \<open>x = 5\<close> (on the margin) and at
  \<open>x = 6\<close> and the box ending at 995 are retained, and likewise for the rows. (For an
  image of 90 by 90 and the ratio 0.3 the rounding shows: the upper margin is below 63.)
\<close>

theorem edge_filter_rejects_crossing:
  assumes "get_facial_area f = reg"
    and "get_or (area_x reg) 0 = fx" and "get_or (area_y reg) 0 = fy"
    and "get_or (area_w reg) 0 = fw" and "get_or (area_h reg) 0 = fh"
  shows
    "(real_of_int fx < low_margin (img_w img) emr
        \<or> real_of_int fy < low_margin (img_h img) emr
        \<or> high_margin (img_w img) emr < real_of_int (fx + fw)
        \<or> high_margin (img_h img) emr < real_of_int (fy + fh)
      \<longrightarrow> crop_face img emr pt f = None)
     \<and> (0 < fw \<and> 0 < fh
          \<and> low_margin (img_w img) emr \<le> real_of_int fx
          \<and> low_margin (img_h img) emr \<le> real_of_int fy
          \<and> real_of_int (fx + fw) \<le> high_margin (img_w img) emr
          \<and> real_of_int (fy + fh) \<le> high_margin (img_h img) emr
          \<and> crop_size img \<lparr>crop_x = fx, crop_y = fy, crop_w = fw, crop_h = fh\<rparr> \<noteq> 0
          \<and> \<not> (truthy reg \<and> asymmetry_ratio reg > double_round pt)
        \<longrightarrow> crop_face img emr pt f =
              Some \<lparr>crop_x = fx, crop_y = fy, crop_w = fw, crop_h = fh\<rparr>)
     \<and> (\<forall>cs. detect_faces_and_crop dets (Some img) emr pt = Inr cs \<longrightarrow>
           (\<forall>c \<in> set cs.
              low_margin (img_w img) emr \<le> real_of_int (crop_x c)
              \<and> low_margin (img_h img) emr \<le> real_of_int (crop_y c)
              \<and> real_of_int (crop_x c + crop_w c) \<le> high_margin (img_w img) emr
              \<and> real_of_int (crop_y c + crop_h c) \<le> high_margin (img_h img) emr))
     \<and> low_margin 1000 0.005 = 5 \<and> high_margin 1000 0.005 = 995
     \<and> low_margin 90 0.3 = 27 \<and> high_margin 90 0.3 < 63
     \<and> detect_faces_and_crop
           [example_face 4, example_face 5, example_face 6, example_face 795,
            example_face 796]
           (Some example_image) 0.005 0.6 =
         Inr [\<lparr>crop_x = 5, crop_y = 100, crop_w = 200, crop_h = 200\<rparr>,
              \<lparr>crop_x = 6, crop_y = 100, crop_w = 200, crop_h = 200\<rparr>,
              \<lparr>crop_x = 795, crop_y = 100, crop_w = 200, crop_h = 200\<rparr>]
     \<and> detect_faces_and_crop
           [example_face_row 4, example_face_row 5, example_face_row 795,
            example_face_row 796]
           (Some example_image) 0.005 0.6 =
         Inr [\<lparr>crop_x = 100, crop_y = 5, crop_w = 200, crop_h = 200\<rparr>,
              \<lparr>crop_x = 100, crop_y = 795, crop_w = 200, crop_h = 200\<rparr>]"
proof -
  note eq = crop_face_eq [OF assms, of img emr pt]
  have crossing: "crop_face img emr pt f = None"
    if "real_of_int fx < low_margin (img_w img) emr
        \<or> real_of_int fy < low_margin (img_h img) emr
        \<or> high_margin (img_w img) emr < real_of_int (fx + fw)
        \<or> high_margin (img_h img) emr < real_of_int (fy + fh)"
    using that unfolding eq near_edge_def by auto
  have within: "crop_face img emr pt f =
              Some \<lparr>crop_x = fx, crop_y = fy, crop_w = fw, crop_h = fh\<rparr>"
    if "0 < fw \<and> 0 < fh
          \<and> low_margin (img_w img) emr \<le> real_of_int fx
          \<and> low_margin (img_h img) emr \<le> real_of_int fy
          \<and> real_of_int (fx + fw) \<le> high_margin (img_w img) emr
          \<and> real_of_int (fy + fh) \<le> high_margin (img_h img) emr
          \<and> crop_size img \<lparr>crop_x = fx, crop_y = fy, crop_w = fw, crop_h = fh\<rparr> \<noteq> 0
          \<and> \<not> (truthy reg \<and> asymmetry_ratio reg > double_round pt)"
    using that unfolding eq near_edge_def by auto
  have returned: "low_margin (img_w img) emr \<le> real_of_int (crop_x c)
              \<and> low_margin (img_h img) emr \<le> real_of_int (crop_y c)
              \<and> real_of_int (crop_x c + crop_w c) \<le> high_margin (img_w img) emr
              \<and> real_of_int (crop_y c + crop_h c) \<le> high_margin (img_h img) emr"
    if "detect_faces_and_crop dets (Some img) emr pt = Inr cs" "c \<in> set cs" for cs c
  proof -
    from that have "c \<in> set (crop_faces img emr pt dets)"
      by (simp add: detect_faces_and_crop_def)
    then obtain g where "crop_face img emr pt g = Some c"
      using crop_faces_set by blast
    then show ?thesis by (rule crop_face_inside)
  qed
  have margins: "low_margin 1000 0.005 = 5" "high_margin 1000 0.005 = 995"
    by (simp_all add: low_margin_1000 high_margin_1000)
  have rounding: "low_margin 90 0.3 = 27" "high_margin 90 0.3 < 63"
    using margins_follow_float_rounding by simp_all
  have columns: "detect_faces_and_crop
           [example_face 4, example_face 5, example_face 6, example_face 795,
            example_face 796]
           (Some example_image) 0.005 0.6 =
         Inr [\<lparr>crop_x = 5, crop_y = 100, crop_w = 200, crop_h = 200\<rparr>,
              \<lparr>crop_x = 6, crop_y = 100, crop_w = 200, crop_h = 200\<rparr>,
              \<lparr>crop_x = 795, crop_y = 100, crop_w = 200, crop_h = 200\<rparr>]"
    by (simp only: detect_faces_and_crop_def option.case crop_faces.simps
        crop_example_face_4 crop_example_face_5 crop_example_face_6
        crop_example_face_795 crop_example_face_796)
  have rows: "detect_faces_and_crop
           [example_face_row 4, example_face_row 5, example_face_row 795,
            example_face_row 796]
           (Some example_image) 0.005 0.6 =
         Inr [\<lparr>crop_x = 100, crop_y = 5, crop_w = 200, crop_h = 200\<rparr>,
              \<lparr>crop_x = 100, crop_y = 795, crop_w = 200, crop_h = 200\<rparr>]"
    by (simp only: detect_faces_and_crop_def option.case crop_faces.simps
        crop_example_face_row_4 crop_example_face_row_5 crop_example_face_row_795
        crop_example_face_row_796)
  show ?thesis
    using crossing within returned margins rounding columns rows by blast
qed

text \<open>
  Against claim C9 as stated: the box that starts at \<open>x = 5\<close>, exactly on the margin, is
  not excluded.
\<close>

theorem touching_box_retained:
  "real_of_int 5 = real (img_w example_image) * 0.005
   \<and> detect_faces_and_crop [example_face 5] (Some example_image) 0.005 0.6 =
       Inr [\<lparr>crop_x = 5, crop_y = 100, crop_w = 200, crop_h = 200\<rparr>]"
proof -
  have "real_of_int 5 = real (img_w example_image) * 0.005"
    by (simp add: example_image_def)
  moreover have "detect_faces_and_crop [example_face 5] (Some example_image) 0.005 0.6 =
       Inr [\<lparr>crop_x = 5, crop_y = 100, crop_w = 200, crop_h = 200\<rparr>]"
    by (simp only: detect_faces_and_crop_def option.case crop_faces.simps
        crop_example_face_5)
  ultimately show ?thesis by blast
qed

theorem edge_filter_rejects_crossing_witness:
  "real_of_int 4 < low_margin (img_w example_image) 0.005
   \<and> crop_face example_image 0.005 0.6 (example_face 4) = None
   \<and> low_margin (img_w example_image) 0.005 = real_of_int 5
   \<and> real_of_int (795 + 200) = high_margin (img_w example_image) 0.005
   \<and> crop_face example_image 0.005 0.6 (example_face 5) =
       Some \<lparr>crop_x = 5, crop_y = 100, crop_w = 200, crop_h = 200\<rparr>
   \<and> crop_face example_image 0.005 0.6 (example_face 795) =
       Some \<lparr>crop_x = 795, crop_y = 100, crop_w = 200, crop_h = 200\<rparr>"
proof -
  have m: "low_margin (img_w example_image) 0.005 = 5"
    "low_margin (img_h example_image) 0.005 = 5"
    "high_margin (img_w example_image) 0.005 = 995"
    "high_margin (img_h example_image) 0.005 = 995"
    by (simp_all add: example_image_def low_margin_1000 high_margin_1000)
  have box: "get_or (area_x (get_facial_area (example_face a))) 0 = a"
    "get_or (area_y (get_facial_area (example_face a))) 0 = 100"
    "get_or (area_w (get_facial_area (example_face a))) 0 = 200"
    "get_or (area_h (get_facial_area (example_face a))) 0 = 200" for a
    by (simp_all add: example_face_def get_facial_area_def get_or_def)
  note inst = edge_filter_rejects_crossing [OF refl box, of _ example_image "0.005" "0.6"]
  have "crop_face example_image 0.005 0.6 (example_face 4) = None"
    using inst [of 4] m by simp
  moreover have "crop_face example_image 0.005 0.6 (example_face a) =
       Some \<lparr>crop_x = a, crop_y = 100, crop_w = 200, crop_h = 200\<rparr>"
    if "a = 5 \<or> a = 795" for a
  proof -
    have "\<bar>a\<bar> < 2 ^ 20" using that by auto
    then have "\<not> asymmetry_ratio (get_facial_area (example_face a)) > double_round 0.6"
      by (simp add: asymmetry_example_face double_06)
    moreover have "crop_size example_image
        \<lparr>crop_x = a, crop_y = 100, crop_w = 200, crop_h = 200\<rparr> \<noteq> 0"
      using that by (intro crop_size_1000 example_image_shape) auto
    ultimately show ?thesis
      using inst [of a] m that by auto
  qed
  ultimately show ?thesis
    using m by simp
qed

text \<open>
  Claim C10, as amended. For a detection that carries the three landmarks, with
  coordinates below \<open>2 ^ 25\<close> in absolute value, and that passes the box and edge tests,
  the profile filter rejects it if and only if its asymmetry ratio strictly exceeds
  \<open>profile_threshold\<close>. The ratio is \<open>|midpoint(eyes).x - nose.x|\<close> divided by the
  distance of the eyes, the distance and the quotient each rounded to a double, for
  eyes that differ, and 1 for eyes that coincide. So a ratio equal to the threshold is
  retained, and coinciding eyes are rejected exactly when the threshold is below 1
  (as the default 0.6 is).
\<close>

theorem profile_filter_with_landmarks:
  assumes "facial_area f = Some reg"
    and "left_eye reg = Some (lx, ly)" and "right_eye reg = Some (rx, ry)"
    and "nose reg = Some (nx, ny)"
    and "\<bar>lx\<bar> < 2 ^ 25" and "\<bar>ly\<bar> < 2 ^ 25" and "\<bar>rx\<bar> < 2 ^ 25" and "\<bar>ry\<bar> < 2 ^ 25"
    and "\<bar>nx\<bar> < 2 ^ 25"
    and "0 < get_or (area_w reg) 0" and "0 < get_or (area_h reg) 0"
    and "\<not> near_edge img emr (get_or (area_x reg) 0) (get_or (area_y reg) 0)
           (get_or (area_w reg) 0) (get_or (area_h reg) 0)"
    and "crop_size img \<lparr>crop_x = get_or (area_x reg) 0, crop_y = get_or (area_y reg) 0,
           crop_w = get_or (area_w reg) 0, crop_h = get_or (area_h reg) 0\<rparr> \<noteq> 0"
  shows "asymmetry_ratio reg =
           (if lx = rx \<and> ly = ry then 1
            else double_round (\<bar>real_of_int (lx + rx) / 2 - real_of_int nx\<bar>
                   / double_round (sqrt (real_of_int
                       ((lx - rx) * (lx - rx) + (ly - ry) * (ly - ry))))))
         \<and> (crop_face img emr pt f = None \<longleftrightarrow> asymmetry_ratio reg > double_round pt)
         \<and> (asymmetry_ratio reg = double_round pt \<longrightarrow> crop_face img emr pt f \<noteq> None)
         \<and> (lx = rx \<and> ly = ry \<longrightarrow>
              (crop_face img emr pt f = None \<longleftrightarrow> double_round pt < 1))"
proof -
  note ratio = asymmetry_ratio_bounded [OF assms(2-9)]
  have reg: "get_facial_area f = reg"
    using assms(1) by (simp add: get_facial_area_def)
  have tr: "truthy reg"
    using assms(2) by (auto simp add: truthy_def empty_region_def)
  have cf: "crop_face img emr pt f = None \<longleftrightarrow> asymmetry_ratio reg > double_round pt"
    unfolding crop_face_eq [OF reg refl refl refl refl]
    using assms(10-13) tr by simp
  have zero: "asymmetry_ratio reg = 1" if "lx = rx \<and> ly = ry"
    using that by (simp add: ratio)
  show ?thesis
    using ratio cf zero by auto
qed

text \<open>
  Against claim C10 as stated: with the threshold 1 a detection whose eyes coincide is
  retained; and with the default threshold a detection without landmarks is rejected by
  the profile filter (with the threshold 1 the same detection is retained, so the tests
  before the profile filter let it pass).
\<close>

theorem profile_filter_counterexample:
  "crop_face example_image 0.005 1 example_face_eyes_coincide =
     Some \<lparr>crop_x = 100, crop_y = 100, crop_w = 200, crop_h = 200\<rparr>
   \<and> crop_face example_image 0.005 0.6 example_face_no_landmarks = None
   \<and> crop_face example_image 0.005 1 example_face_no_landmarks =
     Some \<lparr>crop_x = 100, crop_y = 100, crop_w = 200, crop_h = 200\<rparr>"
proof -
  let ?c = "\<lparr>crop_x = 100, crop_y = 100, crop_w = 200, crop_h = 200\<rparr>"
  have ne: "\<not> near_edge example_image 0.005 100 100 200 200"
    by (simp add: near_edge_1000 [OF example_image_shape])
  have size: "crop_size example_image ?c \<noteq> 0"
    by (intro crop_size_1000 example_image_shape) simp_all
  have coincide: "asymmetry_ratio (get_facial_area example_face_eyes_coincide) = 1"
    by (subst asymmetry_ratio_bounded [of _ 150 150 150 150 150 200])
      (simp_all add: example_face_eyes_coincide_def get_facial_area_def)
  have none: "asymmetry_ratio (get_facial_area example_face_no_landmarks) = 1"
    by (simp add: asymmetry_ratio_def eye_distance_def example_face_no_landmarks_def
        get_facial_area_def get_or_def wrap64_def to_float_def fmul_def fadd_def fsqrt_def
        double_round_zero)
  have tr: "truthy (get_facial_area example_face_no_landmarks)"
    by (simp add: truthy_def empty_region_def example_face_no_landmarks_def
        get_facial_area_def)
  have box1: "get_or (area_x (get_facial_area example_face_eyes_coincide)) 0 = 100"
    "get_or (area_y (get_facial_area example_face_eyes_coincide)) 0 = 100"
    "get_or (area_w (get_facial_area example_face_eyes_coincide)) 0 = 200"
    "get_or (area_h (get_facial_area example_face_eyes_coincide)) 0 = 200"
    by (simp_all add: example_face_eyes_coincide_def get_facial_area_def get_or_def)
  have box2: "get_or (area_x (get_facial_area example_face_no_landmarks)) 0 = 100"
    "get_or (area_y (get_facial_area example_face_no_landmarks)) 0 = 100"
    "get_or (area_w (get_facial_area example_face_no_landmarks)) 0 = 200"
    "get_or (area_h (get_facial_area example_face_no_landmarks)) 0 = 200"
    by (simp_all add: example_face_no_landmarks_def get_facial_area_def get_or_def)
  have "crop_face example_image 0.005 1 example_face_eyes_coincide = Some ?c"
    unfolding crop_face_eq [OF refl box1]
    using ne size by (simp add: coincide double_round_one)
  moreover have "crop_face example_image 0.005 0.6 example_face_no_landmarks = None"
    unfolding crop_face_eq [OF refl box2]
    using ne size tr by (simp add: none double_06)
  moreover have "crop_face example_image 0.005 1 example_face_no_landmarks = Some ?c"
    unfolding crop_face_eq [OF refl box2]
    using ne size by (simp add: none double_round_one)
  ultimately show ?thesis by blast
qed

theorem profile_filter_with_landmarks_witness:
  "asymmetry_ratio (get_facial_area (example_turned_face 260)) = double_round 0.6
   \<and> crop_face example_image 0.005 0.6 (example_turned_face 260) \<noteq> None
   \<and> asymmetry_ratio (get_facial_area (example_turned_face 261)) = double_round 0.61
   \<and> double_round 0.61 > double_round 0.6
   \<and> crop_face example_image 0.005 0.6 (example_turned_face 261) = None"
proof -
  let ?r = "\<lambda>n. \<lparr>area_x = Some 100, area_y = Some 100,
     area_w = Some 200, area_h = Some 200, left_eye = Some (150, 150),
     right_eye = Some (250, 150), nose = Some (n, 200)\<rparr>"
  have reg: "get_facial_area (example_turned_face n) = ?r n" for n
    by (simp add: example_turned_face_def get_facial_area_def)
  have fa: "facial_area (example_turned_face n) = Some (?r n)" for n
    by (simp add: example_turned_face_def)
  have ne: "\<not> near_edge example_image 0.005 100 100 200 200"
    by (simp add: near_edge_1000 [OF example_image_shape])
  have size: "crop_size example_image
      \<lparr>crop_x = 100, crop_y = 100, crop_w = 200, crop_h = 200\<rparr> \<noteq> 0"
    by (intro crop_size_1000 example_image_shape) simp_all
  have inst: "asymmetry_ratio (?r n) =
           (if (150::int) = 250 \<and> (150::int) = 150 then 1
            else double_round (\<bar>real_of_int (150 + 250) / 2 - real_of_int n\<bar>
                   / double_round (sqrt (real_of_int
                       ((150 - 250) * (150 - 250) + (150 - 150) * (150 - 150))))))
         \<and> (crop_face example_image 0.005 0.6 (example_turned_face n) = None
              \<longleftrightarrow> asymmetry_ratio (?r n) > double_round 0.6)"
    if "\<bar>n\<bar> < 2 ^ 25" for n
    using profile_filter_with_landmarks [OF fa, of n 150 150 250 150 n 200 example_image
        "0.005" "0.6"] that ne size
    by (simp add: get_or_def)
  have a: "asymmetry_ratio (?r 260) = double_round 0.6"
    using inst [of 260] by (simp add: sqrt_10000 double_round_numeral)
  have b: "asymmetry_ratio (?r 261) = double_round 0.61"
    using inst [of 261] by (simp add: sqrt_10000 double_round_numeral)
  have gt: "double_round 0.61 > double_round 0.6"
    by (simp add: double_06 double_061)
  have "crop_face example_image 0.005 0.6 (example_turned_face 260) \<noteq> None"
    using inst [of 260] a by simp
  moreover have "crop_face example_image 0.005 0.6 (example_turned_face 261) = None"
    using inst [of 261] b gt by simp
  ultimately show ?thesis
    using a b gt by (simp add: reg)
qed

section \<open>Matching and enrollment\<close>

subsection \<open>The code as it stands: no \<^verbatim>\<open>save_new_customer_face\<close>\<close>

lemma process_face_undefined_save:
  "process_face utils_save_new_customer_face ce search st c =
     (if index st \<noteq> [] \<and> THRESHOLD < fst (search (index st) (ce c))
      then (st, Inr \<lparr>r_is_returning = True, r_similarity = fst (search (index st) (ce c)),
                      r_index = snd (search (index st) (ce c)), r_saved_path = None\<rparr>)
      else (st, Inl AttributeError))"
  by (simp add: process_face_def add_to_db_def utils_save_new_customer_face_def
      THRESHOLD_def Let_def split: prod.splits)

lemma recognize_faces_undefined_save:
  "recognize_faces utils_save_new_customer_face ce search st faces acc =
     (st, if \<forall>c \<in> set faces. index st \<noteq> [] \<and> THRESHOLD < fst (search (index st) (ce c))
          then Inr (acc @ map (\<lambda>c. \<lparr>r_is_returning = True,
                      r_similarity = fst (search (index st) (ce c)),
                      r_index = snd (search (index st) (ce c)), r_saved_path = None\<rparr>) faces)
          else Inl AttributeError)"
proof (induction faces arbitrary: acc)
  case Nil
  show ?case by simp
next
  case (Cons c faces)
  show ?case
    by (simp add: process_face_undefined_save Cons.IH)
qed

lemma recognize_image_path_faces:
  "detect_faces_and_crop dets img 0.005 0.6 = Inr faces \<Longrightarrow>
     recognize_image_path save ce search st dets img = recognize_faces save ce search st faces []"
  by (simp add: recognize_image_path_def)

lemma detect_example_face_100:
  "detect_faces_and_crop [example_face 100] (Some example_image) 0.005 0.6 = Inr [example_crop]"
  by (simp only: detect_faces_and_crop_def option.case crop_faces.simps
      crop_example_face_100 example_crop_def)


text \<open>
  Claim C2. For an image that \<^verbatim>\<open>detect_faces_and_crop\<close> turns into the crops \<open>faces\<close>
  (a file that cannot be read makes it raise \<^verbatim>\<open>ValueError\<close> before any face is seen),
  \<^verbatim>\<open>recognize_image_path\<close> returns a list of results if and only if every crop is
  decided Returning (the index is not empty and the similarity of the nearest entry is
  strictly greater than 0.7). As soon as a crop is decided New the call raises
  \<^verbatim>\<open>AttributeError\<close>. In every case the index and the file system are left as they
  were, and a list that is returned has one result per crop, each with
  \<open>is_returning = True\<close>.
\<close>

theorem recognize_image_path_returns_iff_all_returning:
  assumes "detect_faces_and_crop dets img 0.005 0.6 = Inr faces"
  shows "fst (recognize_image_path utils_save_new_customer_face ce search st dets img) = st
     \<and> ((\<exists>rs. snd (recognize_image_path utils_save_new_customer_face ce search st dets img)
                = Inr rs)
          \<longleftrightarrow> (\<forall>c \<in> set faces.
                 index st \<noteq> [] \<and> THRESHOLD < fst (search (index st) (ce c))))
     \<and> ((\<exists>c \<in> set faces.
            index st = [] \<or> fst (search (index st) (ce c)) \<le> THRESHOLD)
          \<longrightarrow> snd (recognize_image_path utils_save_new_customer_face ce search st dets img)
                = Inl AttributeError)
     \<and> (\<forall>rs. snd (recognize_image_path utils_save_new_customer_face ce search st dets img)
                = Inr rs
          \<longrightarrow> length rs = length faces \<and> (\<forall>r \<in> set rs. r_is_returning r))
     \<and> THRESHOLD = 0.7"
  using assms
  by (auto simp add: recognize_image_path_faces recognize_faces_undefined_save
      THRESHOLD_def)

theorem recognize_image_path_returns_iff_all_returning_witness:
  "detect_faces_and_crop [example_face 100] (Some example_image) 0.005 0.6 = Inr [example_crop]
   \<and> recognize_image_path utils_save_new_customer_face (\<lambda>c. 7) example_search
         (example_state [3, 7]) [example_face 100] (Some example_image) =
       (example_state [3, 7], Inr [\<lparr>r_is_returning = True, r_similarity = 1, r_index = 1,
          r_saved_path = None\<rparr>])
   \<and> recognize_image_path utils_save_new_customer_face (\<lambda>c. 7) example_search
         (example_state [3]) [example_face 100] (Some example_image) =
       (example_state [3], Inl AttributeError)"
proof -
  note d = detect_example_face_100
  have a: "index (example_state [3, 7]) \<noteq> []
     \<and> THRESHOLD < fst (example_search (index (example_state [3, 7])) 7)"
    by (simp add: example_state_def example_search_def THRESHOLD_def)
  have b: "fst (example_search (index (example_state [3])) 7) \<le> THRESHOLD"
    by (simp add: example_state_def example_search_def THRESHOLD_def)
  from recognize_image_path_returns_iff_all_returning
         [OF d, of "\<lambda>c. 7" example_search "example_state [3, 7]"] a
  obtain rs where rs: "recognize_image_path utils_save_new_customer_face (\<lambda>c. 7)
      example_search (example_state [3, 7]) [example_face 100] (Some example_image) =
      (example_state [3, 7], Inr rs)"
    by (cases "recognize_image_path utils_save_new_customer_face (\<lambda>c. 7)
      example_search (example_state [3, 7]) [example_face 100] (Some example_image)") auto
  have "rs = [\<lparr>r_is_returning = True, r_similarity = 1, r_index = 1,
          r_saved_path = None\<rparr>]"
    using rs
    by (simp add: recognize_image_path_faces [OF d] process_face_undefined_save
        example_state_def example_search_def THRESHOLD_def split: if_splits)
  moreover
  from recognize_image_path_returns_iff_all_returning
         [OF d, of "\<lambda>c. 7" example_search "example_state [3]"] b
  have "recognize_image_path utils_save_new_customer_face (\<lambda>c. 7) example_search
         (example_state [3]) [example_face 100] (Some example_image) =
       (example_state [3], Inl AttributeError)"
    by (cases "recognize_image_path utils_save_new_customer_face (\<lambda>c. 7)
      example_search (example_state [3]) [example_face 100] (Some example_image)") auto
  ultimately show ?thesis using d rs by simp
qed

text \<open>
  Claim C1 fails on the code. A face found while the index is empty is decided New; the
  call then raises \<^verbatim>\<open>AttributeError\<close>: no artifact is saved, nothing is appended to the
  index or written to the index file, and no New result is reported.
\<close>

theorem new_face_raises_attribute_error:
  "recognize_image_path utils_save_new_customer_face (\<lambda>c. 7) example_search
     (example_state []) [example_face 100] (Some example_image) =
   (example_state [], Inl AttributeError)"
  by (simp add: recognize_image_path_faces [OF detect_example_face_100]
      process_face_undefined_save example_state_def)


subsection \<open>The decision rule\<close>

lemma add_to_db_not_returning:
  "add_to_db save st c emb s i = (st', Inr r) \<Longrightarrow> \<not> r_is_returning r \<and> r_similarity r = s"
  by (auto simp add: add_to_db_def Let_def split: option.splits)

text \<open>
  Claim C5. For a face processed against a non-empty index, the decision is Returning
  if and only if the similarity of the nearest entry is strictly greater than the
  threshold 0.7. A similarity of at most 0.7, so one equal to 0.7 too, takes the branch
  of a new face.
\<close>

theorem threshold_decision:
  assumes "index st \<noteq> []" and "search (index st) (ce c) = (s, i)"
  shows "THRESHOLD = 0.7
     \<and> ((\<exists>st' r. process_face save ce search st c = (st', Inr r) \<and> r_is_returning r)
          \<longleftrightarrow> s > 0.7)
     \<and> (s > 0.7 \<longrightarrow> process_face save ce search st c =
            (st, Inr \<lparr>r_is_returning = True, r_similarity = s, r_index = i,
                       r_saved_path = None\<rparr>))
     \<and> (s \<le> 0.7 \<longrightarrow> process_face save ce search st c = add_to_db save st c (ce c) s i)"
proof -
  have gt: "process_face save ce search st c =
            (st, Inr \<lparr>r_is_returning = True, r_similarity = s, r_index = i,
                       r_saved_path = None\<rparr>)" if "s > 0.7"
    using assms that by (simp add: process_face_def THRESHOLD_def)
  have le: "process_face save ce search st c = add_to_db save st c (ce c) s i" if "s \<le> 0.7"
    using assms that by (simp add: process_face_def THRESHOLD_def)
  have "s > 0.7" if "process_face save ce search st c = (st', Inr r)" "r_is_returning r"
    for st' r
  proof (rule ccontr)
    assume "\<not> s > 0.7"
    then have "process_face save ce search st c = add_to_db save st c (ce c) s i"
      using le by simp
    with that show False
      using add_to_db_not_returning by metis
  qed
  then show ?thesis
    using gt le by (auto simp add: THRESHOLD_def)
qed

theorem threshold_decision_witness:
  "index (example_state [3]) \<noteq> []
   \<and> example_search (index (example_state [3])) 7 = (0.5, 0)
   \<and> process_face utils_save_new_customer_face (\<lambda>c. 7) example_search (example_state [3])
         example_crop =
       add_to_db utils_save_new_customer_face (example_state [3]) example_crop 7 0.5 0
   \<and> example_search (index (example_state [3, 7])) 7 = (1, 1)
   \<and> process_face utils_save_new_customer_face (\<lambda>c. 7) example_search
         (example_state [3, 7]) example_crop =
       (example_state [3, 7], Inr \<lparr>r_is_returning = True, r_similarity = 1, r_index = 1,
          r_saved_path = None\<rparr>)"
proof -
  have a: "index (example_state [3]) \<noteq> []"
    "example_search (index (example_state [3])) 7 = (0.5, 0)"
    by (simp_all add: example_state_def example_search_def)
  have b: "index (example_state [3, 7]) \<noteq> []"
    "example_search (index (example_state [3, 7])) 7 = (1, 1)"
    by (simp_all add: example_state_def example_search_def)
  from threshold_decision [of "example_state [3]" example_search "\<lambda>c. 7" example_crop
      "0.5" 0 utils_save_new_customer_face] a
  have "process_face utils_save_new_customer_face (\<lambda>c. 7) example_search (example_state [3])
         example_crop =
       add_to_db utils_save_new_customer_face (example_state [3]) example_crop 7 0.5 0"
    by simp
  moreover
  from threshold_decision [of "example_state [3, 7]" example_search "\<lambda>c. 7" example_crop
      1 1 utils_save_new_customer_face] b
  have "process_face utils_save_new_customer_face (\<lambda>c. 7) example_search
         (example_state [3, 7]) example_crop =
       (example_state [3, 7], Inr \<lparr>r_is_returning = True, r_similarity = 1, r_index = 1,
          r_saved_path = None\<rparr>)"
    by simp
  ultimately show ?thesis using a b by simp
qed

text \<open>
  Claim C6. For a face processed while the index is empty, the decision is New with the
  similarity 0 (and the rank -1): the branch of a new face is taken with these values,
  whatever the search would return, so the search is not consulted, and a result that
  is reported has the shape of every other result.
\<close>

theorem empty_index_decides_new:
  assumes "index st = []"
  shows "process_face save ce search st c = add_to_db save st c (ce c) 0 (- 1)
     \<and> (\<forall>search'. process_face save ce search' st c = process_face save ce search st c)
     \<and> (\<forall>st' r. process_face save ce search st c = (st', Inr r) \<longrightarrow>
           \<not> r_is_returning r \<and> r_similarity r = 0 \<and> r_index r = - 1)
     \<and> (\<forall>save_face. process_face (Some save_face) ce search st c =
           (st\<lparr>index := [ce c],
               disk := (disk st)\<lparr>files := (files (disk st))(FAISS_INDEX_PATH \<mapsto> [ce c])\<rparr>\<rparr>,
            Inr \<lparr>r_is_returning = False, r_similarity = 0, r_index = - 1,
                  r_saved_path = Some (save_face c)\<rparr>))"
proof -
  have eq: "process_face save' ce search' st c = add_to_db save' st c (ce c) 0 (- 1)"
    for search' :: "'a search" and save'
    using assms by (simp add: process_face_def THRESHOLD_def)
  have "\<not> r_is_returning r \<and> r_similarity r = 0 \<and> r_index r = - 1"
    if "process_face save ce search st c = (st', Inr r)" for st' r
    using that unfolding eq
    by (auto simp add: add_to_db_def Let_def split: option.splits)
  moreover have "process_face (Some save_face) ce search st c =
           (st\<lparr>index := [ce c],
               disk := (disk st)\<lparr>files := (files (disk st))(FAISS_INDEX_PATH \<mapsto> [ce c])\<rparr>\<rparr>,
            Inr \<lparr>r_is_returning = False, r_similarity = 0, r_index = - 1,
                  r_saved_path = Some (save_face c)\<rparr>)" for save_face
    unfolding eq using assms by (simp add: add_to_db_def Let_def)
  ultimately show ?thesis
    using eq by auto
qed

theorem empty_index_decides_new_witness:
  "index (example_state []) = []
   \<and> process_face utils_save_new_customer_face (\<lambda>c. 7) example_search (example_state [])
         example_crop =
       add_to_db utils_save_new_customer_face (example_state []) example_crop 7 0 (- 1)
   \<and> process_face (Some (\<lambda>c. ''known_faces/a.jpg'')) (\<lambda>c. 7) example_search
         (example_state []) example_crop =
       (example_state [7], Inr \<lparr>r_is_returning = False, r_similarity = 0, r_index = - 1,
          r_saved_path = Some ''known_faces/a.jpg''\<rparr>)"
proof -
  have a: "index (example_state []) = []"
    by (simp add: example_state_def)
  note inst = empty_index_decides_new [OF a, of _ "\<lambda>c. 7" example_search example_crop]
  have "process_face utils_save_new_customer_face (\<lambda>c. 7) example_search (example_state [])
         example_crop =
       add_to_db utils_save_new_customer_face (example_state []) example_crop 7 0 (- 1)"
    using inst [of utils_save_new_customer_face] by simp
  moreover have "process_face (Some (\<lambda>c. ''known_faces/a.jpg'')) (\<lambda>c. 7) example_search
         (example_state []) example_crop =
       (example_state [7], Inr \<lparr>r_is_returning = False, r_similarity = 0, r_index = - 1,
          r_saved_path = Some ''known_faces/a.jpg''\<rparr>)"
    using inst [of utils_save_new_customer_face] by (simp add: example_state_def)
  ultimately show ?thesis using a by simp
qed

subsection \<open>The loop with a save function\<close>

text \<open>
  With a save function in place, a face enrolled by one step of the loop is found by
  the search of the next step.
\<close>

lemma enrolled_face_visible_with_save:
  "recognize_faces (Some (\<lambda>c. ''known_faces/a.jpg'')) (\<lambda>c. 7) example_search
     (example_state [3]) [example_crop, example_crop] [] =
   (example_state [3, 7],
    Inr [\<lparr>r_is_returning = False, r_similarity = 0.5, r_index = 0,
            r_saved_path = Some ''known_faces/a.jpg''\<rparr>,
         \<lparr>r_is_returning = True, r_similarity = 1, r_index = 1, r_saved_path = None\<rparr>])"
  by (simp add: process_face_def add_to_db_def example_state_def example_search_def
      THRESHOLD_def)

section \<open>The batch endpoint\<close>

lemma process_upload_filename:
  "filename (snd (process_upload save imd ext ce search st u)) =
     (case upload_filename u of None \<Rightarrow> [] | Some name \<Rightarrow> name)"
  by (simp add: process_upload_def no_faces_def Let_def split: option.splits prod.splits sum.splits)

lemma process_upload_num_faces:
  "num_faces (snd (process_upload save imd ext ce search st u)) =
     length (results (snd (process_upload save imd ext ce search st u)))"
  by (simp add: process_upload_def no_faces_def Let_def split: option.splits prod.splits sum.splits)

lemma process_upload_failure:
  assumes "upload_filename u = None \<or> upload_filename u = Some [] \<or> data u = []
     \<or> imd (data u) = None
     \<or> (\<exists>img e. imd (data u) = Some img
           \<and> snd (recognize_image_path save (ce img) search st (ext img) (Some img)) = Inl e)"
  shows "snd (process_upload save imd ext ce search st u) =
     no_faces (case upload_filename u of None \<Rightarrow> [] | Some name \<Rightarrow> name)"
  using assms
  by (auto simp add: process_upload_def Let_def split: option.splits prod.splits sum.splits)

lemma process_uploads_outputs:
  "\<exists>st' new. process_uploads save imd ext ce search st us acc = (st', acc @ new)
     \<and> length new = length us
     \<and> (\<forall>k < length us. \<exists>st_k.
           new ! k = snd (process_upload save imd ext ce search st_k (us ! k)))"
proof (induction us arbitrary: st acc)
  case Nil
  show ?case by simp
next
  case (Cons u us)
  obtain st1 out where step: "process_upload save imd ext ce search st u = (st1, out)"
    by (cases "process_upload save imd ext ce search st u")
  from Cons.IH [of st1 "acc @ [out]"]
  obtain st' new where rest:
    "process_uploads save imd ext ce search st1 us (acc @ [out]) = (st', (acc @ [out]) @ new)"
    "length new = length us"
    "\<forall>k < length us. \<exists>st_k. new ! k = snd (process_upload save imd ext ce search st_k (us ! k))"
    by blast
  have "process_uploads save imd ext ce search st (u # us) acc = (st', acc @ (out # new))"
    using step rest(1) by simp
  moreover have "length (out # new) = length (u # us)"
    using rest(2) by simp
  moreover have "\<exists>st_k. (out # new) ! k =
      snd (process_upload save imd ext ce search st_k ((u # us) ! k))"
    if "k < length (u # us)" for k
  proof (cases k)
    case 0
    then show ?thesis using step by (metis nth_Cons_0 snd_conv)
  next
    case (Suc j)
    then show ?thesis using that rest(3) by simp
  qed
  ultimately show ?case by blast
qed

text \<open>
  Claim C8. For a batch of at least one file (an empty batch is refused with the status
  400 before the loop), \<^verbatim>\<open>recognize_batch\<close> returns a response with one entry per
  file, in the order of the files: the entry at position \<open>k\<close> is the one computed for
  the file at position \<open>k\<close> and bears its name (the empty name if it has none). A file
  without a name, without bytes, with bytes that do not decode, or whose processing
  raises an exception gets an entry with zero faces and no results; the files after it
  are processed all the same.
\<close>

theorem recognize_batch_one_entry_per_file:
  assumes "uploads \<noteq> []"
  shows "\<exists>st' resp.
     recognize_batch save imd ext ce search st uploads = (st', Inr resp)
     \<and> length (items resp) = length uploads
     \<and> (\<forall>k < length uploads. \<exists>st_k.
           items resp ! k = snd (process_upload save imd ext ce search st_k (uploads ! k))
           \<and> filename (items resp ! k) =
               (case upload_filename (uploads ! k) of None \<Rightarrow> [] | Some name \<Rightarrow> name)
           \<and> num_faces (items resp ! k) = length (results (items resp ! k))
           \<and> (upload_filename (uploads ! k) = None
                \<or> upload_filename (uploads ! k) = Some []
                \<or> data (uploads ! k) = []
                \<or> imd (data (uploads ! k)) = None
                \<or> (\<exists>img e. imd (data (uploads ! k)) = Some img
                      \<and> snd (recognize_image_path save (ce img) search st_k (ext img)
                               (Some img)) = Inl e)
              \<longrightarrow> num_faces (items resp ! k) = 0 \<and> results (items resp ! k) = []))"
proof -
  from process_uploads_outputs [of save imd ext ce search st uploads "[]"]
  obtain st' new where run:
    "process_uploads save imd ext ce search st uploads [] = (st', new)"
    "length new = length uploads"
    "\<forall>k < length uploads. \<exists>st_k.
        new ! k = snd (process_upload save imd ext ce search st_k (uploads ! k))"
    by auto
  have resp: "recognize_batch save imd ext ce search st uploads = (st', Inr \<lparr>items = new\<rparr>)"
    using assms run(1) by (simp add: recognize_batch_def)
  have "\<exists>st_k.
           new ! k = snd (process_upload save imd ext ce search st_k (uploads ! k))
           \<and> filename (new ! k) =
               (case upload_filename (uploads ! k) of None \<Rightarrow> [] | Some name \<Rightarrow> name)
           \<and> num_faces (new ! k) = length (results (new ! k))
           \<and> (upload_filename (uploads ! k) = None
                \<or> upload_filename (uploads ! k) = Some []
                \<or> data (uploads ! k) = []
                \<or> imd (data (uploads ! k)) = None
                \<or> (\<exists>img e. imd (data (uploads ! k)) = Some img
                      \<and> snd (recognize_image_path save (ce img) search st_k (ext img)
                               (Some img)) = Inl e)
              \<longrightarrow> num_faces (new ! k) = 0 \<and> results (new ! k) = [])"
    if "k < length uploads" for k
  proof -
    from run(3) that obtain st_k where
      out: "new ! k = snd (process_upload save imd ext ce search st_k (uploads ! k))"
      by blast
    have "num_faces (new ! k) = 0 \<and> results (new ! k) = []"
      if "upload_filename (uploads ! k) = None
                \<or> upload_filename (uploads ! k) = Some []
                \<or> data (uploads ! k) = []
                \<or> imd (data (uploads ! k)) = None
                \<or> (\<exists>img e. imd (data (uploads ! k)) = Some img
                      \<and> snd (recognize_image_path save (ce img) search st_k (ext img)
                               (Some img)) = Inl e)"
      using process_upload_failure [of "uploads ! k" imd save ce search st_k ext] that out
      by (simp add: no_faces_def)
    then show ?thesis
      using out process_upload_filename process_upload_num_faces by metis
  qed
  then show ?thesis
    using resp run(2) by simp
qed

lemma detect_example_face_100_any:
  assumes "img_h img = 1000" and "img_w img = 1000"
  shows "detect_faces_and_crop [example_face 100] (Some img) 0.005 0.6 = Inr [example_crop]"
proof -
  have "crop_face img 0.005 0.6 (example_face 100) = Some example_crop"
    by (subst crop_example_face [OF assms]) (simp_all add: example_crop_def)
  then show ?thesis
    by (simp add: detect_faces_and_crop_def)
qed

lemma recognize_example_upload:
  "b \<noteq> 0 \<Longrightarrow>
   recognize_image_path utils_save_new_customer_face
     (example_embedding \<lparr>img_h = 1000, img_w = 1000, pixels = b\<rparr>) example_search
     (example_state ix) (example_extract_faces \<lparr>img_h = 1000, img_w = 1000, pixels = b\<rparr>)
     (Some \<lparr>img_h = 1000, img_w = 1000, pixels = b\<rparr>) =
   (example_state ix,
    if b \<in> set ix
    then Inr [\<lparr>r_is_returning = True, r_similarity = 1,
               r_index = int (length (takeWhile (\<lambda>e. e \<noteq> b) ix)), r_saved_path = None\<rparr>]
    else Inl AttributeError)"
  by (simp add: example_extract_faces_def recognize_image_path_faces
        [OF detect_example_face_100_any] process_face_undefined_save
      example_embedding_def example_state_def example_search_def THRESHOLD_def)

lemma recognize_batch_example_uploads:
  "recognize_batch utils_save_new_customer_face example_imdecode example_extract_faces
     example_embedding example_search (example_state [2]) example_uploads =
   (example_state [2],
    Inr \<lparr>items = [\<lparr>filename = [], num_faces = 0, results = []\<rparr>,
                  \<lparr>filename = ''empty.jpg'', num_faces = 0, results = []\<rparr>,
                  \<lparr>filename = ''broken.jpg'', num_faces = 0, results = []\<rparr>,
                  \<lparr>filename = ''new.jpg'', num_faces = 0, results = []\<rparr>,
                  \<lparr>filename = ''known.jpg'', num_faces = 1,
                     results = [\<lparr>is_returning = True, similarity = 1\<rparr>]\<rparr>]\<rparr>)"
  by (simp add: recognize_batch_def example_uploads_def process_upload_def
      example_imdecode_def recognize_example_upload no_faces_def RecognizeItem_of_def)

theorem recognize_batch_one_entry_per_file_witness:
  "example_uploads \<noteq> []
   \<and> recognize_batch utils_save_new_customer_face example_imdecode example_extract_faces
       example_embedding example_search (example_state [2]) example_uploads =
     (example_state [2],
      Inr \<lparr>items = [\<lparr>filename = [], num_faces = 0, results = []\<rparr>,
                  \<lparr>filename = ''empty.jpg'', num_faces = 0, results = []\<rparr>,
                  \<lparr>filename = ''broken.jpg'', num_faces = 0, results = []\<rparr>,
                  \<lparr>filename = ''new.jpg'', num_faces = 0, results = []\<rparr>,
                  \<lparr>filename = ''known.jpg'', num_faces = 1,
                     results = [\<lparr>is_returning = True, similarity = 1\<rparr>]\<rparr>]\<rparr>)
   \<and> length example_uploads = 5"
proof -
  have ne: "example_uploads \<noteq> []"
    by (simp add: example_uploads_def)
  from recognize_batch_one_entry_per_file [OF ne, of utils_save_new_customer_face
      example_imdecode example_extract_faces example_embedding example_search
      "example_state [2]"]
  obtain st' resp where
    run: "recognize_batch utils_save_new_customer_face example_imdecode
        example_extract_faces example_embedding example_search (example_state [2])
        example_uploads = (st', Inr resp)"
    and len: "length (items resp) = length example_uploads"
    by blast
  from run have "resp = \<lparr>items = [\<lparr>filename = [], num_faces = 0, results = []\<rparr>,
                  \<lparr>filename = ''empty.jpg'', num_faces = 0, results = []\<rparr>,
                  \<lparr>filename = ''broken.jpg'', num_faces = 0, results = []\<rparr>,
                  \<lparr>filename = ''new.jpg'', num_faces = 0, results = []\<rparr>,
                  \<lparr>filename = ''known.jpg'', num_faces = 1,
                     results = [\<lparr>is_returning = True, similarity = 1\<rparr>]\<rparr>]\<rparr>"
    and "st' = example_state [2]"
    unfolding recognize_batch_example_uploads by simp_all
  with run len ne show ?thesis by simp
qed

text \<open>
  Claim C4 fails on the code. Two images of the same identity, new to the index, are
  submitted in one batch: processing the first raises \<^verbatim>\<open>AttributeError\<close> in place of
  enrolling the face, so does the second, and both entries report zero faces; the index
  is unchanged.
\<close>

theorem same_identity_twice_both_fail:
  "recognize_batch utils_save_new_customer_face example_imdecode example_extract_faces
     example_embedding example_search (example_state [2]) example_same_identity =
   (example_state [2],
    Inr \<lparr>items = [\<lparr>filename = ''first.jpg'', num_faces = 0, results = []\<rparr>,
                  \<lparr>filename = ''second.jpg'', num_faces = 0, results = []\<rparr>]\<rparr>)"
  by (simp add: recognize_batch_def example_same_identity_def process_upload_def
      example_imdecode_def recognize_example_upload no_faces_def)

text \<open>
  Claim C3 fails on the code. For a new face nothing is exposed: the loop body raises
  \<^verbatim>\<open>AttributeError\<close> in place of building the result, so the entry of the batch
  response has zero faces and no item. And the item could not carry the saved path:
  \<^verbatim>\<open>RecognizeItem\<close> has no field for it, so two results of new faces that differ in
  their saved path give the same item.
\<close>

theorem new_face_exposes_nothing:
  "process_face utils_save_new_customer_face (example_embedding example_image)
     example_search (example_state [2]) example_crop =
   (example_state [2], Inl AttributeError)
   \<and> recognize_batch utils_save_new_customer_face example_imdecode example_extract_faces
       example_embedding example_search (example_state [2])
       [\<lparr>upload_filename = Some ''new.jpg'', data = [1]\<rparr>] =
     (example_state [2],
      Inr \<lparr>items = [\<lparr>filename = ''new.jpg'', num_faces = 0, results = []\<rparr>]\<rparr>)
   \<and> RecognizeItem_of \<lparr>r_is_returning = False, r_similarity = 0.5, r_index = 0,
          r_saved_path = Some ''known_faces/a.jpg''\<rparr> =
     RecognizeItem_of \<lparr>r_is_returning = False, r_similarity = 0.5, r_index = 0,
          r_saved_path = Some ''known_faces/b.jpg''\<rparr>"
proof -
  have "process_face utils_save_new_customer_face (example_embedding example_image)
     example_search (example_state [2]) example_crop =
   (example_state [2], Inl AttributeError)"
    by (simp add: process_face_undefined_save example_embedding_def example_image_def
        example_search_def example_state_def THRESHOLD_def)
  moreover have "recognize_batch utils_save_new_customer_face example_imdecode
       example_extract_faces example_embedding example_search (example_state [2])
       [\<lparr>upload_filename = Some ''new.jpg'', data = [1]\<rparr>] =
     (example_state [2],
      Inr \<lparr>items = [\<lparr>filename = ''new.jpg'', num_faces = 0, results = []\<rparr>]\<rparr>)"
    by (simp add: recognize_batch_def process_upload_def example_imdecode_def
        recognize_example_upload no_faces_def)
  moreover have "RecognizeItem_of \<lparr>r_is_returning = False, r_similarity = 0.5, r_index = 0,
          r_saved_path = Some ''known_faces/a.jpg''\<rparr> =
     RecognizeItem_of \<lparr>r_is_returning = False, r_similarity = 0.5, r_index = 0,
          r_saved_path = Some ''known_faces/b.jpg''\<rparr>"
    by (simp add: RecognizeItem_of_def)
  ultimately show ?thesis by blast
qed

end
